theory Spec2Isabelle
  imports Complex_Main
begin

section \<open>Exceptions\<close>

text \<open>
  The exceptions the three modules raise or let through. \<open>RemoteResourceNotFound\<close> is a
  subclass of \<open>WebDavException\<close> in the WebDAV client library, so an
  \<open>except WebDavException\<close> clause catches both.
\<close>

datatype error =
    WebDavException string
  | RemoteResourceNotFound string
  | FileExistsError string
  | FileNotFoundError string
  | NotADirectoryError string
  | NotImplementedError
  | RuntimeError
  | TypeError
  | AttributeError string
  | ConfigurationError
  | ClosedClientError
  | ValueError string

fun is_WebDavException :: "error \<Rightarrow> bool" where
  "is_WebDavException (WebDavException _) = True"
| "is_WebDavException (RemoteResourceNotFound _) = True"
| "is_WebDavException _ = False"

section \<open>macro\_pipeline.py: the fan-out executor\<close>

text \<open>
  Python values as far as the executor's results need them: \<open>None\<close>, integers, strings,
  tuples, an exception class and an exception instance (class name and message).
\<close>

datatype pyval =
    PyNone
  | PyInt int
  | PyStr string
  | PyTuple "pyval list"
  | PyExcType string
  | PyExcValue string string

text \<open>
  What calling \<open>task.run\<close> does: it returns a value, or it raises an exception of some
  class with some message.
\<close>

datatype task = Returns pyval | Raises string string

text \<open>
  \<open>_run_task(f)\<close>: the pair \<open>(exctype, value)\<close> starts as \<open>(None, None)\<close>; the value that
  \<open>f()\<close> returns is bound to \<open>_\<close> and dropped; the bare \<open>except\<close> overwrites the pair with
  the first two components of \<open>sys.exc_info()\<close>.
\<close>

fun run_task :: "task \<Rightarrow> pyval" where
  "run_task (Returns _) = PyTuple [PyNone, PyNone]"
| "run_task (Raises k v) = PyTuple [PyExcType k, PyExcValue k v]"

text \<open>
  The distributed backend is a collaborator. Its constructors may fail; a call log keeps
  what the executor asked of it. \<open>'k\<close> is the type of the forwarded keyword arguments,
  \<open>'c\<close> the type of a client handle.
\<close>

datatype 'k dask_call =
    NewClient
  | NewSSHCluster 'k
  | Submit nat
  | Gather
  | Shutdown

record ('k, 'c) dask =
  new_client :: "error + 'c"
  new_ssh_client :: "'k \<Rightarrow> error + 'c"

record ('k, 'c) MacroPipeline =
  tasks :: "task list"
  client :: "'c option"
  dask_calls :: "'k dask_call list"

text \<open>\<open>__init__\<close> sets the task list only: there is no \<open>client\<close> attribute yet.\<close>

definition init_MacroPipeline :: "('k, 'c) MacroPipeline" where
  "init_MacroPipeline = \<lparr>tasks = [], client = None, dask_calls = []\<rparr>"

definition add_task :: "task \<Rightarrow> ('k, 'c) MacroPipeline \<Rightarrow> ('k, 'c) MacroPipeline" where
  "add_task t mp = mp\<lparr>tasks := tasks mp @ [t]\<rparr>"

text \<open>
  \<open>setup_client(mode, **kwargs)\<close>. The messages printed before the two raises are not
  part of the state.
\<close>

definition setup_client ::
  "('k, 'c) dask \<Rightarrow> string \<Rightarrow> 'k \<Rightarrow> ('k, 'c) MacroPipeline
     \<Rightarrow> (error + unit) \<times> ('k, 'c) MacroPipeline" where
  "setup_client d mode kwargs mp =
     (if mode = ''local'' then
        (let mp1 = mp\<lparr>dask_calls := dask_calls mp @ [NewClient]\<rparr> in
         case new_client d of
           Inl e \<Rightarrow> (Inl e, mp1)
         | Inr c \<Rightarrow> (Inr (), mp1\<lparr>client := Some c\<rparr>))
      else if mode = ''ssh'' then
        (let mp1 = mp\<lparr>dask_calls := dask_calls mp @ [NewSSHCluster kwargs]\<rparr> in
         case new_ssh_client d kwargs of
           Inl e \<Rightarrow> (Inl e, mp1)
         | Inr c \<Rightarrow> (Inr (), mp1\<lparr>client := Some c\<rparr>))
      else if mode = ''slurm'' then (Inl NotImplementedError, mp)
      else (Inl RuntimeError, mp))"

text \<open>
  The methods of a client that \<open>run()\<close> calls, as the collaborator gives them: each
  may raise, and each leaves the client in a new state (\<open>shutdown\<close> closes it). A
  submission takes the task that the adapter is submitted with.
\<close>

record 'c dask_client =
  submit :: "'c \<Rightarrow> task \<Rightarrow> (error + unit) \<times> 'c"
  gather :: "'c \<Rightarrow> (error + unit) \<times> 'c"
  shutdown :: "'c \<Rightarrow> (error + unit) \<times> 'c"

text \<open>
  The list comprehension of \<open>run()\<close>: one \<open>submit\<close> per task, in the order of the task
  list, ended by the first one that raises. The last component counts the calls made.
\<close>

fun submit_tasks ::
  "'c dask_client \<Rightarrow> 'c \<Rightarrow> nat \<Rightarrow> task list \<Rightarrow> (error + unit) \<times> 'c \<times> nat" where
  "submit_tasks b c i [] = (Inr (), c, i)"
| "submit_tasks b c i (t # ts) =
     (case submit b c t of
        (Inl e, c1) \<Rightarrow> (Inl e, c1, Suc i)
      | (Inr _, c1) \<Rightarrow> submit_tasks b c1 (Suc i) ts)"

text \<open>
  \<open>run()\<close>: reading \<open>self.client\<close> before \<open>setup_client\<close> has set it raises
  \<open>AttributeError\<close>. Otherwise every task is submitted through the adapter, in the order
  of the task list; \<open>gather\<close> hands back the adapters' return values in the order of the
  futures; the client is shut down, and stays the executor's client in the state that
  \<open>shutdown\<close> left it in. An exception of \<open>submit\<close>, \<open>gather\<close> or \<open>shutdown\<close> goes
  through.
\<close>

definition run ::
  "'c dask_client \<Rightarrow> ('k, 'c) MacroPipeline
     \<Rightarrow> (error + pyval list) \<times> ('k, 'c) MacroPipeline" where
  "run b mp =
     (case client mp of
        None \<Rightarrow> (Inl (AttributeError ''client''), mp)
      | Some c \<Rightarrow>
          (case submit_tasks b c 0 (tasks mp) of
             (Inl e, c1, k) \<Rightarrow>
               (Inl e, mp\<lparr>client := Some c1,
                          dask_calls := dask_calls mp @ map Submit [0 ..< k]\<rparr>)
           | (Inr _, c1, k) \<Rightarrow>
               (case gather b c1 of
                  (Inl e, c2) \<Rightarrow>
                    (Inl e, mp\<lparr>client := Some c2,
                               dask_calls := dask_calls mp @ map Submit [0 ..< k] @ [Gather]\<rparr>)
                | (Inr _, c2) \<Rightarrow>
                    (case shutdown b c2 of
                       (Inl e, c3) \<Rightarrow>
                         (Inl e, mp\<lparr>client := Some c3,
                                    dask_calls := dask_calls mp @ map Submit [0 ..< k]
                                      @ [Gather, Shutdown]\<rparr>)
                     | (Inr _, c3) \<Rightarrow>
                         (Inr (map run_task (tasks mp)),
                          mp\<lparr>client := Some c3,
                             dask_calls := dask_calls mp @ map Submit [0 ..< k]
                               @ [Gather, Shutdown]\<rparr>)))))"





section \<open>grid.py: the tiling grid\<close>

text \<open>
  Coordinates are Python floats; they are modelled as reals, so rounding is left out.
\<close>

record Grid =
  min_x :: real
  min_y :: real
  max_x :: real
  max_y :: real
  n_tiles_side :: int

text \<open>
  Modelled from the spec: \<open>grid.py\<close> (the class \<open>Grid\<close> with \<open>setup\<close> and
  \<open>get_tile_index\<close>) is imported by \<open>retiler.py\<close> but is not among the sources.
  \<open>setup\<close> (here \<open>grid_setup\<close>) validates \<open>max > min\<close> on both axes and
  \<open>n_tiles_side \<ge> 1\<close> and fails with a configuration error otherwise.
\<close>

definition grid_setup :: "real \<Rightarrow> real \<Rightarrow> real \<Rightarrow> real \<Rightarrow> int \<Rightarrow> error + Grid" where
  "grid_setup mnx mny mxx mxy n =
     (if mxx > mnx \<and> mxy > mny \<and> n \<ge> 1
      then Inr \<lparr>min_x = mnx, min_y = mny, max_x = mxx, max_y = mxy, n_tiles_side = n\<rparr>
      else Inl ConfigurationError)"

text \<open>
  Modelled from the spec: the per-axis tile size is \<open>(max - min) / n_tiles_side\<close>.
\<close>

definition tile_width :: "Grid \<Rightarrow> real" where
  "tile_width g = (max_x g - min_x g) / real_of_int (n_tiles_side g)"

definition tile_height :: "Grid \<Rightarrow> real" where
  "tile_height g = (max_y g - min_y g) / real_of_int (n_tiles_side g)"

text \<open>
  Modelled from the spec: floor division of the offset from the minimum by the tile
  size; an index equal to \<open>n_tiles_side\<close> is clamped to \<open>n_tiles_side - 1\<close>; no other
  clamp.
\<close>

definition clamp_index :: "Grid \<Rightarrow> int \<Rightarrow> int" where
  "clamp_index g i = (if i = n_tiles_side g then n_tiles_side g - 1 else i)"

definition get_tile_index :: "Grid \<Rightarrow> real \<Rightarrow> real \<Rightarrow> int \<times> int" where
  "get_tile_index g x y =
     (clamp_index g \<lfloor>(x - min_x g) / tile_width g\<rfloor>,
      clamp_index g \<lfloor>(y - min_y g) / tile_height g\<rfloor>)"

section \<open>retiler.py: splitting a file and redistributing the tiles\<close>

subsection \<open>File names\<close>

text \<open>
  \<open>str.rfind\<close> for a single character: the index of its last occurrence, \<open>None\<close> where
  Python returns \<open>-1\<close>.
\<close>

fun rfind :: "char \<Rightarrow> string \<Rightarrow> nat option" where
  "rfind c [] = None"
| "rfind c (x # xs) =
     (case rfind c xs of
        Some i \<Rightarrow> Some (Suc i)
      | None \<Rightarrow> if x = c then Some 0 else None)"

text \<open>
  \<open>pathlib\<close>'s \<open>suffix\<close> and \<open>stem\<close> of a final path component: with \<open>i = name.rfind('.')\<close>,
  the name splits at \<open>i\<close> when \<open>0 < i < len(name) - 1\<close>, and has no suffix otherwise.
\<close>

definition path_suffix :: "string \<Rightarrow> string" where
  "path_suffix name =
     (case rfind CHR ''.'' name of
        None \<Rightarrow> []
      | Some i \<Rightarrow> if 0 < i \<and> Suc i < length name then drop i name else [])"

definition path_stem :: "string \<Rightarrow> string" where
  "path_stem name =
     (case rfind CHR ''.'' name of
        None \<Rightarrow> name
      | Some i \<Rightarrow> if 0 < i \<and> Suc i < length name then take i name else name)"

text \<open>\<open>str.lower\<close> on ASCII names, and \<open>str.startswith\<close>.\<close>

definition lower_char :: "char \<Rightarrow> char" where
  "lower_char c =
     (let n = (of_char c :: nat) in if 65 \<le> n \<and> n \<le> 90 then char_of (n + 32) else c)"

definition lower :: "string \<Rightarrow> string" where
  "lower s = map lower_char s"

definition startswith :: "string \<Rightarrow> string \<Rightarrow> bool" where
  "startswith s p = (take (length p) s = p)"

text \<open>\<open>str(int)\<close>, for \<open>'tile_{}_{}'.format(int(x_index), int(y_index))\<close>.\<close>

definition digit_char :: "nat \<Rightarrow> char" where
  "digit_char d = char_of (48 + d)"

function str_nat :: "nat \<Rightarrow> string" where
  "str_nat n = (if n < 10 then [digit_char n] else str_nat (n div 10) @ [digit_char (n mod 10)])"
  by pat_completeness auto
termination
  by (relation "measure id") auto

definition str_int :: "int \<Rightarrow> string" where
  "str_int i = (if i < 0 then CHR ''-'' # str_nat (nat (- i)) else str_nat (nat i))"

definition get_tile_name :: "int \<Rightarrow> int \<Rightarrow> string" where
  "get_tile_name x_index y_index = ''tile_'' @ str_int x_index @ ''_'' @ str_int y_index"

subsection \<open>Files and folders\<close>

text \<open>
  What \<open>pylas\<close> reads from the header of a point-cloud file: the point count and the
  first two components of \<open>mins\<close> and \<open>maxs\<close> (the code reads no others).
\<close>

record header =
  point_count :: nat
  mins :: "real \<times> real"
  maxs :: "real \<times> real"

text \<open>
  A file carries its header, or \<open>None\<close> when \<open>pylas.open\<close> fails on it with \<open>IOError\<close>;
  a folder carries its entries, in the order in which it lists them.
\<close>

datatype node = File "header option" | Dir "(string \<times> node) list"

fun is_file :: "node \<Rightarrow> bool" where
  "is_file (File _) = True"
| "is_file (Dir _) = False"

text \<open>
  \<open>_get_details_pc_file\<close>: the tuple read from the header, or \<open>None\<close> after an
  \<open>IOError\<close> (opening a folder is one).
\<close>

fun get_details_pc_file :: "node \<Rightarrow> header option" where
  "get_details_pc_file (File h) = h"
| "get_details_pc_file (Dir _) = None"

record retile_record =
  rec_file :: string
  redistributed_to :: "string list"
  validated :: bool

text \<open>
  The task context of one Retiler and the files it works on: the name of the input file
  and what is at its path, the entries of the output folder, the grid, the log of the
  \<open>rename\<close> calls (file name, folder name) and the record files written.
\<close>

record Retiler =
  input_name :: string
  input_node :: "node option"
  output_folder :: "(string \<times> node) list"
  grid :: Grid
  renames :: "(string \<times> string) list"
  written :: "(string \<times> retile_record) list"

text \<open>\<open>tiling\<close> sets up the grid.\<close>

definition tiling ::
  "real \<Rightarrow> real \<Rightarrow> real \<Rightarrow> real \<Rightarrow> int \<Rightarrow> Retiler \<Rightarrow> (error + unit) \<times> Retiler" where
  "tiling mnx mny mxx mxy n w =
     (case grid_setup mnx mny mxx mxy n of
        Inl e \<Rightarrow> (Inl e, w)
      | Inr g \<Rightarrow> (Inr (), w\<lparr>grid := g\<rparr>))"

text \<open>
  Modelled from the spec: \<open>utils.check_file_exists\<close> is not among the sources; with
  \<open>should_exist=True\<close> it fails with not-found unless the path is an existing file.
\<close>

definition check_file_exists :: "string \<Rightarrow> node option \<Rightarrow> error + unit" where
  "check_file_exists name nd =
     (case nd of
        Some (File _) \<Rightarrow> Inr ()
      | _ \<Rightarrow> Inl (FileNotFoundError name))"

text \<open>
  Modelled from the spec: \<open>utils.check_dir_exists\<close> is not among the sources; with
  \<open>should_exist=True, mkdir=True\<close> it creates the folder if absent. A file of that name
  is in the way.
\<close>

definition check_dir_exists ::
  "string \<Rightarrow> (string \<times> node) list \<Rightarrow> error + (string \<times> node) list" where
  "check_dir_exists d out =
     (case map_of out d of
        None \<Rightarrow> Inr (out @ [(d, Dir [])])
      | Some (Dir _) \<Rightarrow> Inr out
      | Some (File _) \<Rightarrow> Inl (FileExistsError d))"

text \<open>
  \<open>tile.rename(retiled_folder.joinpath(tile.name))\<close>: the entry leaves the output folder
  and becomes an entry of the folder \<open>d\<close>, replacing one of the same name there.
\<close>

fun put_child :: "string \<Rightarrow> node \<Rightarrow> node \<Rightarrow> node" where
  "put_child n nd (Dir ch) = Dir (filter (\<lambda>(m, _). m \<noteq> n) ch @ [(n, nd)])"
| "put_child n nd (File h) = File h"

definition rename_into ::
  "string \<Rightarrow> string \<Rightarrow> (string \<times> node) list \<Rightarrow> (string \<times> node) list" where
  "rename_into n d out =
     (case map_of out n of
        None \<Rightarrow> out
      | Some nd \<Rightarrow>
          map (\<lambda>(m, x). if m = d then (m, put_child n nd x) else (m, x))
            (filter (\<lambda>(m, _). m \<noteq> n) out))"

text \<open>
  The condition of the list comprehension that selects the tiles among the entries of
  the output folder.
\<close>

definition is_tile_of :: "string \<Rightarrow> string \<times> node \<Rightarrow> bool" where
  "is_tile_of inp f =
     (is_file (snd f)
      \<and> lower (path_suffix (fst f)) = lower (path_suffix inp)
      \<and> startswith (path_stem (fst f)) (path_stem inp)
      \<and> fst f \<noteq> inp)"

text \<open>
  The loop over the tiles. Unpacking the \<open>None\<close> that \<open>_get_details_pc_file\<close> returns for
  an unreadable tile raises \<open>TypeError\<close>.
\<close>

fun redistribute :: "(string \<times> node) list \<Rightarrow> Retiler \<Rightarrow> (error + unit) \<times> Retiler" where
  "redistribute [] w = (Inr (), w)"
| "redistribute (tile # ts) w =
     (case get_details_pc_file (snd tile) of
        None \<Rightarrow> (Inl TypeError, w)
      | Some h \<Rightarrow>
          (let cpX = fst (mins h) + ((fst (maxs h) - fst (mins h)) / 2);
               cpY = snd (mins h) + ((snd (maxs h) - snd (mins h)) / 2);
               ij = get_tile_index (grid w) cpX cpY;
               tile_id = get_tile_name (fst ij) (snd ij)
           in case check_dir_exists tile_id (output_folder w) of
                Inl e \<Rightarrow> (Inl e, w)
              | Inr out \<Rightarrow>
                  redistribute ts
                    (w\<lparr>output_folder := rename_into (fst tile) tile_id out,
                       renames := renames w @ [(fst tile, tile_id)]\<rparr>)))"

text \<open>
  \<open>split_and_redistribute\<close>. The PDAL splitter is a collaborator: \<open>pdal\<close> gives the
  entries of the output folder after it ran, or the error it raised.
\<close>

definition split_and_redistribute ::
  "(Retiler \<Rightarrow> error + (string \<times> node) list) \<Rightarrow> Retiler \<Rightarrow> (error + unit) \<times> Retiler" where
  "split_and_redistribute pdal w =
     (case check_file_exists (input_name w) (input_node w) of
        Inl e \<Rightarrow> (Inl e, w)
      | Inr _ \<Rightarrow>
          (case pdal w of
             Inl e \<Rightarrow> (Inl e, w)
           | Inr out \<Rightarrow>
               redistribute (filter (is_tile_of (input_name w)) out)
                 (w\<lparr>output_folder := out\<rparr>)))"

subsection \<open>Validation\<close>











text \<open>
  A folder and the folders below it, each with the name of its parent: what the
  component \<open>**\<close> selects.
\<close>

fun dirs_under :: "string \<Rightarrow> string \<Rightarrow> node \<Rightarrow> (string \<times> string \<times> node) list"
  and dirs_among :: "string \<Rightarrow> (string \<times> node) list \<Rightarrow> (string \<times> string \<times> node) list" where
  "dirs_under parent n (File h) = []"
| "dirs_under parent n (Dir ch) = (parent, n, Dir ch) # dirs_among n ch"
| "dirs_among parent [] = []"
| "dirs_among parent ((n, c) # rest) = dirs_under parent n c @ dirs_among parent rest"







subsection \<open>Reference notions for the retiler\<close>






subsection \<open>A small retiling job\<close>

text \<open>
  An input file \<open>a.las\<close> of 8 points that lies in the output folder itself, on the grid
  \<open>Grid.setup(0,0,100,100,2)\<close>; the splitter leaves two tiles of 3 and 4 points beside
  it, and two files that are no tiles of \<open>a.las\<close>.
\<close>

definition demo_header :: header where
  "demo_header = \<lparr>point_count = 8, mins = (0, 0), maxs = (100, 100)\<rparr>"

definition demo_split :: "(string \<times> node) list" where
  "demo_split =
     [(''a.las'', File (Some demo_header)),
      (''a_1.las'', File (Some \<lparr>point_count = 3, mins = (0, 0), maxs = (50, 50)\<rparr>)),
      (''a_2.LAS'', File (Some \<lparr>point_count = 4, mins = (50, 50), maxs = (100, 100)\<rparr>)),
      (''b_1.las'', File (Some \<lparr>point_count = 3, mins = (0, 0), maxs = (50, 50)\<rparr>)),
      (''a_3.txt'', File None)]"

definition demo_retiler :: Retiler where
  "demo_retiler =
     \<lparr>input_name = ''a.las'', input_node = Some (File (Some demo_header)),
      output_folder = [(''a.las'', File (Some demo_header))],
      grid = \<lparr>min_x = 0, min_y = 0, max_x = 100, max_y = 100, n_tiles_side = 2\<rparr>,
      renames = [], written = []\<rparr>"

definition demo_pdal :: "Retiler \<Rightarrow> error + (string \<times> node) list" where
  "demo_pdal w = Inr demo_split"



section \<open>remote\_utils.py: pushing and pulling directories\<close>

subsection \<open>Paths, the WebDAV client and the call log\<close>

text \<open>\<open>os.path.join\<close> of two POSIX paths.\<close>

definition os_path_join :: "string \<Rightarrow> string \<Rightarrow> string" where
  "os_path_join a b =
     (if (case b of [] \<Rightarrow> False | c # _ \<Rightarrow> c = CHR ''/'') then b
      else if a = [] \<or> last a = CHR ''/'' then a @ b
      else a @ ''/'' @ b)"

text \<open>
  The WebDAV client is a collaborator: a value of this record gives what each of its
  methods does on a remote store of type \<open>'c\<close>. A query returns its answer or the
  exception it raises; a method that changes the store returns the store afterwards as
  well.
\<close>

record 'c wdclient =
  wd_check :: "'c \<Rightarrow> string \<Rightarrow> error + bool"
  wd_is_dir :: "'c \<Rightarrow> string \<Rightarrow> error + bool"
  wd_list :: "'c \<Rightarrow> string \<Rightarrow> error + string list"
  wd_mkdir :: "'c \<Rightarrow> string \<Rightarrow> (error + unit) \<times> 'c"
  wd_clean :: "'c \<Rightarrow> string \<Rightarrow> (error + unit) \<times> 'c"
  wd_upload_sync :: "'c \<Rightarrow> string \<Rightarrow> string \<Rightarrow> (error + unit) \<times> 'c"
  wd_download_file :: "'c \<Rightarrow> string \<Rightarrow> string \<Rightarrow> (error + unit) \<times> 'c"

text \<open>
  The log keeps every call on the client, and every \<open>os.makedirs\<close>, with its outcome,
  in the order of the calls.
\<close>

datatype call =
    Check string
  | IsDir string
  | ListDir string
  | Mkdir string
  | Clean string
  | UploadSync string string
  | DownloadFile string string
  | Makedirs string

datatype outcome =
    Raised error
  | RetBool bool
  | RetList "string list"
  | RetNone

text \<open>
  The state the functions work on: the remote store, the log, and the paths that exist
  on the local file system.
\<close>

record 'c rstate =
  remote :: 'c
  calls :: "(call \<times> outcome) list"
  local_paths :: "string list"

definition logged :: "call \<Rightarrow> outcome \<Rightarrow> 'c rstate \<Rightarrow> 'c rstate" where
  "logged c out st = st\<lparr>calls := calls st @ [(c, out)]\<rparr>"

definition do_check :: "'c wdclient \<Rightarrow> 'c rstate \<Rightarrow> string \<Rightarrow> (error + bool) \<times> 'c rstate" where
  "do_check cl st p =
     (case wd_check cl (remote st) p of
        Inl e \<Rightarrow> (Inl e, logged (Check p) (Raised e) st)
      | Inr b \<Rightarrow> (Inr b, logged (Check p) (RetBool b) st))"

definition do_is_dir :: "'c wdclient \<Rightarrow> 'c rstate \<Rightarrow> string \<Rightarrow> (error + bool) \<times> 'c rstate" where
  "do_is_dir cl st p =
     (case wd_is_dir cl (remote st) p of
        Inl e \<Rightarrow> (Inl e, logged (IsDir p) (Raised e) st)
      | Inr b \<Rightarrow> (Inr b, logged (IsDir p) (RetBool b) st))"

definition do_list ::
  "'c wdclient \<Rightarrow> 'c rstate \<Rightarrow> string \<Rightarrow> (error + string list) \<times> 'c rstate" where
  "do_list cl st p =
     (case wd_list cl (remote st) p of
        Inl e \<Rightarrow> (Inl e, logged (ListDir p) (Raised e) st)
      | Inr rs \<Rightarrow> (Inr rs, logged (ListDir p) (RetList rs) st))"

definition changed ::
  "call \<Rightarrow> (error + unit) \<times> 'c \<Rightarrow> 'c rstate \<Rightarrow> (error + unit) \<times> 'c rstate" where
  "changed c r st =
     (case fst r of
        Inl e \<Rightarrow> (Inl e, logged c (Raised e) (st\<lparr>remote := snd r\<rparr>))
      | Inr _ \<Rightarrow> (Inr (), logged c RetNone (st\<lparr>remote := snd r\<rparr>)))"

definition do_mkdir :: "'c wdclient \<Rightarrow> 'c rstate \<Rightarrow> string \<Rightarrow> (error + unit) \<times> 'c rstate" where
  "do_mkdir cl st p = changed (Mkdir p) (wd_mkdir cl (remote st) p) st"

definition do_clean :: "'c wdclient \<Rightarrow> 'c rstate \<Rightarrow> string \<Rightarrow> (error + unit) \<times> 'c rstate" where
  "do_clean cl st p = changed (Clean p) (wd_clean cl (remote st) p) st"

definition do_upload_sync ::
  "'c wdclient \<Rightarrow> 'c rstate \<Rightarrow> string \<Rightarrow> string \<Rightarrow> (error + unit) \<times> 'c rstate" where
  "do_upload_sync cl st rp lp = changed (UploadSync rp lp) (wd_upload_sync cl (remote st) rp lp) st"

text \<open>A download that succeeds leaves the file at the local path.\<close>

definition do_download_file ::
  "'c wdclient \<Rightarrow> 'c rstate \<Rightarrow> string \<Rightarrow> string \<Rightarrow> (error + unit) \<times> 'c rstate" where
  "do_download_file cl st rp lp =
     (case changed (DownloadFile rp lp) (wd_download_file cl (remote st) rp lp) st of
        (Inl e, st1) \<Rightarrow> (Inl e, st1)
      | (Inr _, st1) \<Rightarrow> (Inr (), st1\<lparr>local_paths := local_paths st1 @ [lp]\<rparr>))"

text \<open>
  \<open>os.makedirs(local_dir)\<close>, called where \<open>os.path.exists(local_dir)\<close> has just been
  false.
\<close>

definition makedirs :: "'c rstate \<Rightarrow> string \<Rightarrow> 'c rstate" where
  "makedirs st p = logged (Makedirs p) RetNone (st\<lparr>local_paths := local_paths st @ [p]\<rparr>)"

subsection \<open>Single files\<close>

text \<open>
  \<open>push_file_to_remote\<close>: the file name is a string by its type. The \<open>except\<close> clause
  prints and re-raises, so every exception of the upload goes through unchanged.
\<close>

definition push_file_to_remote ::
  "'c wdclient \<Rightarrow> 'c rstate \<Rightarrow> string \<Rightarrow> string \<Rightarrow> string \<Rightarrow> (error + unit) \<times> 'c rstate" where
  "push_file_to_remote cl st local_origin remote_destination file =
     (let remote_path_to_file = os_path_join remote_destination file;
          local_path_to_file = os_path_join local_origin file
      in case do_check cl st remote_destination of
           (Inl e, st1) \<Rightarrow> (Inl e, st1)
         | (Inr b, st1) \<Rightarrow>
             if b = True then do_upload_sync cl st1 remote_path_to_file local_path_to_file
             else (Inl (RemoteResourceNotFound remote_path_to_file), st1))"

definition pull_file_from_remote ::
  "'c wdclient \<Rightarrow> 'c rstate \<Rightarrow> string \<Rightarrow> string \<Rightarrow> string \<Rightarrow> (error + unit) \<times> 'c rstate" where
  "pull_file_from_remote cl st local_destination remote_origin file =
     (let remote_path_to_file = os_path_join remote_origin file;
          local_path_to_file = os_path_join local_destination file
      in do_download_file cl st remote_path_to_file local_path_to_file)"

subsection \<open>Pulling a directory\<close>

text \<open>
  \<open>pull_directory_from_remote\<close> and its loop over the records. The first argument
  bounds the depth of the recursion, which follows what the client lists; \<open>None\<close> means
  the bound was reached. The answer of \<open>wdclient.check(remote_dir)\<close> is not bound to
  anything: only an exception of the call ends the function there.
\<close>

fun pull_directory_from_remote ::
    "nat \<Rightarrow> 'c wdclient \<Rightarrow> 'c rstate \<Rightarrow> string \<Rightarrow> string \<Rightarrow> ((error + unit) \<times> 'c rstate) option"
  and pull_records ::
    "nat \<Rightarrow> 'c wdclient \<Rightarrow> 'c rstate \<Rightarrow> string \<Rightarrow> string \<Rightarrow> string list
       \<Rightarrow> ((error + unit) \<times> 'c rstate) option" where
  "pull_directory_from_remote 0 cl st local_dir remote_dir = None"
| "pull_directory_from_remote (Suc n) cl st local_dir remote_dir =
     (if local_dir \<in> set (local_paths st) then Some (Inl (FileExistsError local_dir), st)
      else
        (case do_check cl st remote_dir of
           (Inl e, st1) \<Rightarrow> Some (Inl e, st1)
         | (Inr _, st1) \<Rightarrow>
             (case do_list cl st1 remote_dir of
                (Inl e, st2) \<Rightarrow> Some (Inl e, st2)
              | (Inr records, st2) \<Rightarrow>
                  pull_records n cl (makedirs st2 local_dir) local_dir remote_dir
                    (drop 1 records))))"
| "pull_records n cl st local_dir remote_dir [] = Some (Inr (), st)"
| "pull_records n cl st local_dir remote_dir (record # rest) =
     (let rpath = os_path_join remote_dir record;
          lpath = os_path_join local_dir record
      in case do_is_dir cl st rpath of
           (Inl e, st1) \<Rightarrow> Some (Inl e, st1)
         | (Inr b, st1) \<Rightarrow>
             if b then
               (case pull_directory_from_remote n cl st1 lpath rpath of
                  None \<Rightarrow> None
                | Some (Inl e, st2) \<Rightarrow> Some (Inl e, st2)
                | Some (Inr _, st2) \<Rightarrow> pull_records n cl st2 local_dir remote_dir rest)
             else
               (case pull_file_from_remote cl st1 local_dir remote_dir record of
                  (Inl e, st2) \<Rightarrow> Some (Inl e, st2)
                | (Inr _, st2) \<Rightarrow> pull_records n cl st2 local_dir remote_dir rest))"

subsection \<open>Pushing a directory\<close>

text \<open>
  The local tree that \<open>os.listdir\<close> and \<open>os.path.isdir\<close> walk: a directory lists its
  records by name, in the order of \<open>os.listdir\<close>; every other record is a file.
\<close>

datatype ltree = LFile | LDir "(string \<times> ltree) list"

text \<open>
  The first statement of \<open>push_directory_to_remote\<close>: the remote target is created when
  \<open>check\<close> answers \<open>False\<close> (a \<open>WebDavException\<close> of \<open>mkdir\<close> becomes a bare
  \<open>FileNotFoundError\<close>), and must be a directory otherwise (a bare \<open>FileExistsError\<close>
  if not).
\<close>

definition remote_target ::
  "'c wdclient \<Rightarrow> 'c rstate \<Rightarrow> string \<Rightarrow> (error + unit) \<times> 'c rstate" where
  "remote_target cl st remote_dir =
     (case do_check cl st remote_dir of
        (Inl e, st1) \<Rightarrow> (Inl e, st1)
      | (Inr b, st1) \<Rightarrow>
          if b = False then
            (case do_mkdir cl st1 remote_dir of
               (Inl e, st2) \<Rightarrow>
                 (if is_WebDavException e then (Inl (FileNotFoundError []), st2)
                  else (Inl e, st2))
             | (Inr _, st2) \<Rightarrow> (Inr (), st2))
          else
            (case do_is_dir cl st1 remote_dir of
               (Inl e, st2) \<Rightarrow> (Inl e, st2)
             | (Inr d, st2) \<Rightarrow>
                 if d = True then (Inr (), st2) else (Inl (FileExistsError []), st2)))"

text \<open>
  The \<open>else\<close> branch of the loop, for a record that is not a directory: a remote record
  at the target path is removed first, then the file is pushed.
\<close>

definition push_record_file ::
  "'c wdclient \<Rightarrow> 'c rstate \<Rightarrow> string \<Rightarrow> string \<Rightarrow> string \<Rightarrow> (error + unit) \<times> 'c rstate" where
  "push_record_file cl st local_dir remote_dir lrecord =
     (let rpath = os_path_join remote_dir lrecord
      in case do_check cl st rpath of
           (Inl e, st1) \<Rightarrow> (Inl e, st1)
         | (Inr b, st1) \<Rightarrow>
             if b then
               (case do_clean cl st1 rpath of
                  (Inl e, st2) \<Rightarrow> (Inl e, st2)
                | (Inr _, st2) \<Rightarrow> push_file_to_remote cl st2 local_dir remote_dir lrecord)
             else push_file_to_remote cl st1 local_dir remote_dir lrecord)"

text \<open>
  \<open>push_directory_to_remote\<close> and its loop over \<open>os.listdir(local_dir)\<close>, which raises
  \<open>NotADirectoryError\<close> on a file.
\<close>

fun push_directory_to_remote ::
    "'c wdclient \<Rightarrow> 'c rstate \<Rightarrow> string \<Rightarrow> ltree \<Rightarrow> string \<Rightarrow> (error + unit) \<times> 'c rstate"
  and push_records ::
    "'c wdclient \<Rightarrow> 'c rstate \<Rightarrow> string \<Rightarrow> string \<Rightarrow> (string \<times> ltree) list
       \<Rightarrow> (error + unit) \<times> 'c rstate" where
  "push_directory_to_remote cl st local_dir LFile remote_dir =
     (case remote_target cl st remote_dir of
        (Inl e, st1) \<Rightarrow> (Inl e, st1)
      | (Inr _, st1) \<Rightarrow> (Inl (NotADirectoryError local_dir), st1))"
| "push_directory_to_remote cl st local_dir (LDir lrecords) remote_dir =
     (case remote_target cl st remote_dir of
        (Inl e, st1) \<Rightarrow> (Inl e, st1)
      | (Inr _, st1) \<Rightarrow> push_records cl st1 local_dir remote_dir lrecords)"
| "push_records cl st local_dir remote_dir [] = (Inr (), st)"
| "push_records cl st local_dir remote_dir ((lrecord, LDir sub) # rest) =
     (case push_directory_to_remote cl st (os_path_join local_dir lrecord) (LDir sub)
             (os_path_join remote_dir lrecord) of
        (Inl e, st1) \<Rightarrow> (Inl e, st1)
      | (Inr _, st1) \<Rightarrow> push_records cl st1 local_dir remote_dir rest)"
| "push_records cl st local_dir remote_dir ((lrecord, LFile) # rest) =
     (case push_record_file cl st local_dir remote_dir lrecord of
        (Inl e, st1) \<Rightarrow> (Inl e, st1)
      | (Inr _, st1) \<Rightarrow> push_records cl st1 local_dir remote_dir rest)"

subsection \<open>Reference notions for the remote functions\<close>

text \<open>
  The files under a local tree, depth first in the order of the listings: each with the
  local directory it lies in, the remote directory it goes to, and its name.
\<close>

fun local_files :: "string \<Rightarrow> string \<Rightarrow> ltree \<Rightarrow> (string \<times> string \<times> string) list"
  and records_files ::
    "string \<Rightarrow> string \<Rightarrow> (string \<times> ltree) list \<Rightarrow> (string \<times> string \<times> string) list" where
  "local_files local_dir remote_dir LFile = []"
| "local_files local_dir remote_dir (LDir lrecords) = records_files local_dir remote_dir lrecords"
| "records_files local_dir remote_dir [] = []"
| "records_files local_dir remote_dir ((lrecord, LDir sub) # rest) =
     local_files (os_path_join local_dir lrecord) (os_path_join remote_dir lrecord) (LDir sub)
       @ records_files local_dir remote_dir rest"
| "records_files local_dir remote_dir ((lrecord, LFile) # rest) =
     (local_dir, remote_dir, lrecord) # records_files local_dir remote_dir rest"

text \<open>The upload that sends a file: remote path and local path.\<close>

definition upload_of :: "string \<times> string \<times> string \<Rightarrow> string \<times> string" where
  "upload_of f =
     (os_path_join (fst (snd f)) (snd (snd f)), os_path_join (fst f) (snd (snd f)))"

text \<open>The uploads of a log, in order.\<close>

fun uploads :: "(call \<times> outcome) list \<Rightarrow> (string \<times> string) list" where
  "uploads [] = []"
| "uploads ((UploadSync rp lp, _) # l) = (rp, lp) # uploads l"
| "uploads (_ # l) = uploads l"

text \<open>
  The calls that send one file when nothing fails: the check of the target path with
  its answer \<open>b\<close>, the removal of the remote record when \<open>b\<close> is true, the check of the
  remote directory, the upload.
\<close>

definition file_calls :: "string \<times> string \<times> string \<Rightarrow> bool \<Rightarrow> (call \<times> outcome) list" where
  "file_calls f b =
     [(Check (fst (upload_of f)), RetBool b)]
     @ (if b then [(Clean (fst (upload_of f)), RetNone)] else [])
     @ [(Check (fst (snd f)), RetBool True),
        (UploadSync (fst (upload_of f)) (snd (upload_of f)), RetNone)]"

definition sends :: "(call \<times> outcome) list \<Rightarrow> string \<times> string \<times> string \<Rightarrow> bool" where
  "sends l f = (\<exists>pre post b. l = pre @ file_calls f b @ post)"

text \<open>
  In a log of a pull: the number of records handled (each starts with an \<open>is_dir\<close>
  query), and the number of records that the listings leave once the first record of
  each is taken away.
\<close>

fun entries_handled :: "(call \<times> outcome) list \<Rightarrow> nat" where
  "entries_handled [] = 0"
| "entries_handled ((IsDir _, _) # l) = Suc (entries_handled l)"
| "entries_handled (_ # l) = entries_handled l"

fun listing_budget :: "(call \<times> outcome) list \<Rightarrow> nat" where
  "listing_budget [] = 0"
| "listing_budget ((ListDir _, RetList rs) # l) = (length rs - 1) + listing_budget l"
| "listing_budget (_ # l) = listing_budget l"

subsection \<open>A small remote store\<close>

text \<open>
  A store for the examples: paths with a file or with the listing of a directory, whose
  first record is the directory itself. \<open>check\<close> answers whether the path is there;
  \<open>is_dir\<close>, \<open>list\<close> and \<open>download_file\<close> raise \<open>RemoteResourceNotFound\<close> on a path that
  is not.
\<close>

datatype rnode = RFile | RDir "string list"

definition demo_wdclient :: "(string \<times> rnode) list wdclient" where
  "demo_wdclient =
     \<lparr>wd_check = (\<lambda>s p. Inr (map_of s p \<noteq> None)),
      wd_is_dir = (\<lambda>s p. case map_of s p of
                            Some (RDir _) \<Rightarrow> Inr True
                          | Some RFile \<Rightarrow> Inr False
                          | None \<Rightarrow> Inl (RemoteResourceNotFound p)),
      wd_list = (\<lambda>s p. case map_of s p of
                          Some (RDir l) \<Rightarrow> Inr l
                        | _ \<Rightarrow> Inl (RemoteResourceNotFound p)),
      wd_mkdir = (\<lambda>s p. (Inr (), (p, RDir [p]) # s)),
      wd_clean = (\<lambda>s p. (Inr (), filter (\<lambda>e. fst e \<noteq> p) s)),
      wd_upload_sync = (\<lambda>s rp lp. (Inr (), (rp, RFile) # s)),
      wd_download_file = (\<lambda>s rp lp. case map_of s rp of
                                      Some RFile \<Rightarrow> (Inr (), s)
                                    | _ \<Rightarrow> (Inl (RemoteResourceNotFound rp), s))\<rparr>"

definition demo_store :: "(string \<times> rnode) list" where
  "demo_store =
     [(''/r'', RDir [''/r'', ''a.las'', ''sub'']),
      (''/r/a.las'', RFile),
      (''/r/sub'', RDir [''/r/sub'', ''b.las'']),
      (''/r/sub/b.las'', RFile)]"

definition demo_rstate :: "(string \<times> rnode) list rstate" where
  "demo_rstate = \<lparr>remote = demo_store, calls = [], local_paths = [''/old'']\<rparr>"

definition demo_ltree :: ltree where
  "demo_ltree = LDir [(''a.las'', LFile), (''sub'', LDir [(''b.las'', LFile)]), (''c.las'', LFile)]"

subsection \<open>Invariants of the two recursions\<close>

text \<open>
  For a pull that returns: the log grows by calls among which the records handled are
  at most the records the listings leave, plus \<open>k\<close> records still to handle; they are
  equal when the pull succeeds.
\<close>

definition within_budget :: "nat \<Rightarrow> 'c rstate \<Rightarrow> ((error + unit) \<times> 'c rstate) option \<Rightarrow> bool" where
  "within_budget k st r =
     (\<forall>res st'. r = Some (res, st') \<longrightarrow>
        (\<exists>new. calls st' = calls st @ new
           \<and> entries_handled new \<le> listing_budget new + k
           \<and> (res = Inr () \<longrightarrow> entries_handled new = listing_budget new + k)))"

text \<open>
  For a push that succeeds: the log grows by calls whose uploads are those of the files
  \<open>fs\<close>, in order, and that send each of them.
\<close>

definition push_ok ::
  "(string \<times> string \<times> string) list \<Rightarrow> 'c rstate \<Rightarrow> (error + unit) \<times> 'c rstate \<Rightarrow> bool" where
  "push_ok fs st r =
     (\<forall>st'. r = (Inr (), st') \<longrightarrow>
        (\<exists>new. calls st' = calls st @ new
           \<and> uploads new = map upload_of fs
           \<and> (\<forall>f \<in> set fs. sends new f)))"

section \<open>Results on the fan-out executor\<close>

text \<open>
  C8: \<open>setup_client\<close> with mode \<open>slurm\<close> fails at once with \<open>NotImplementedError\<close> and
  leaves the executor as it was: no client, no call to the backend. With any mode other
  than \<open>local\<close>, \<open>ssh\<close> and \<open>slurm\<close> it fails with \<open>RuntimeError\<close>.
\<close>

theorem setup_client_slurm_and_unknown:
  "setup_client d ''slurm'' kwargs mp = (Inl NotImplementedError, mp) \<and>
   (mode \<notin> {''local'', ''ssh'', ''slurm''} \<longrightarrow>
      setup_client d mode kwargs mp = (Inl RuntimeError, mp))"
  by (simp add: setup_client_def)

theorem setup_client_slurm_and_unknown_witness:
  "''dask'' \<notin> {''local'', ''ssh'', ''slurm''} \<and>
   setup_client \<lparr>new_client = Inr (), new_ssh_client = (\<lambda>k::unit. Inr ())\<rparr> ''dask'' ()
       init_MacroPipeline
     = (Inl RuntimeError, init_MacroPipeline) \<and>
   setup_client \<lparr>new_client = Inr (), new_ssh_client = (\<lambda>k::unit. Inr ())\<rparr> ''slurm'' ()
       init_MacroPipeline
     = (Inl NotImplementedError, init_MacroPipeline)"
  using setup_client_slurm_and_unknown
    [of "\<lparr>new_client = Inr (), new_ssh_client = (\<lambda>k::unit. Inr ())\<rparr>" "()"
        "init_MacroPipeline" "''dask''"]
  by simp

lemma submit_tasks_count:
  "submit_tasks b c i ts = (Inr u, c1, k) \<Longrightarrow> k = i + length ts"
proof (induction ts arbitrary: c i)
  case Nil
  then show ?case by simp
next
  case (Cons t ts)
  obtain x c' where s: "submit b c t = (x, c')" by (cases "submit b c t") auto
  show ?case
  proof (cases x)
    case (Inl e)
    then show ?thesis using Cons.prems s by simp
  next
    case (Inr v)
    then have "submit_tasks b c' (Suc i) ts = (Inr u, c1, k)" using Cons.prems s by simp
    from Cons.IH [OF this] show ?thesis by simp
  qed
qed







section \<open>Results on the grid\<close>

lemma floor_scaled_bounds:
  fixes x lo hi :: real and n :: int
  assumes "lo < hi" "1 \<le> n" "lo \<le> x" "x \<le> hi"
  shows "0 \<le> \<lfloor>(x - lo) / ((hi - lo) / real_of_int n)\<rfloor>
       \<and> \<lfloor>(x - lo) / ((hi - lo) / real_of_int n)\<rfloor> \<le> n"
proof -
  let ?q = "(x - lo) / ((hi - lo) / real_of_int n)"
  have n: "0 < real_of_int n" using assms by simp
  have w: "0 < (hi - lo) / real_of_int n" using assms by simp
  have "0 \<le> ?q" using assms w by simp
  then have a: "0 \<le> \<lfloor>?q\<rfloor>" by simp
  have "(x - lo) * real_of_int n \<le> (hi - lo) * real_of_int n"
    using assms n by (intro mult_right_mono) simp_all
  then have "?q \<le> real_of_int n" using assms by (simp add: divide_le_eq mult.commute)
  then have "\<lfloor>?q\<rfloor> \<le> n" by (simp add: floor_le_iff)
  with a show ?thesis by simp
qed

lemma clamp_index_range:
  "1 \<le> n_tiles_side g \<Longrightarrow> 0 \<le> i \<and> i \<le> n_tiles_side g \<Longrightarrow>
   0 \<le> clamp_index g i \<and> clamp_index g i \<le> n_tiles_side g - 1"
  by (simp add: clamp_index_def)

lemma grid_setup_Inr:
  "grid_setup mnx mny mxx mxy n = Inr g \<Longrightarrow>
   mnx < mxx \<and> mny < mxy \<and> 1 \<le> n \<and>
   g = \<lparr>min_x = mnx, min_y = mny, max_x = mxx, max_y = mxy, n_tiles_side = n\<rparr>"
  by (auto simp add: grid_setup_def split: if_splits)

lemma get_tile_index_bounds:
  assumes s: "grid_setup mnx mny mxx mxy n = Inr g"
    and b: "mnx \<le> x \<and> x \<le> mxx \<and> mny \<le> y \<and> y \<le> mxy"
  shows "0 \<le> fst (get_tile_index g x y) \<and> fst (get_tile_index g x y) \<le> n - 1 \<and>
         0 \<le> snd (get_tile_index g x y) \<and> snd (get_tile_index g x y) \<le> n - 1"
proof -
  from grid_setup_Inr [OF s] have v: "mnx < mxx" "mny < mxy" "1 \<le> n"
    and g: "g = \<lparr>min_x = mnx, min_y = mny, max_x = mxx, max_y = mxy, n_tiles_side = n\<rparr>"
    by simp_all
  have n: "n_tiles_side g = n" using g by simp
  have fx: "0 \<le> \<lfloor>(x - mnx) / ((mxx - mnx) / real_of_int n)\<rfloor>
          \<and> \<lfloor>(x - mnx) / ((mxx - mnx) / real_of_int n)\<rfloor> \<le> n_tiles_side g"
    using floor_scaled_bounds [of mnx mxx n x] v b n by simp
  have fy: "0 \<le> \<lfloor>(y - mny) / ((mxy - mny) / real_of_int n)\<rfloor>
          \<and> \<lfloor>(y - mny) / ((mxy - mny) / real_of_int n)\<rfloor> \<le> n_tiles_side g"
    using floor_scaled_bounds [of mny mxy n y] v b n by simp
  have g1: "1 \<le> n_tiles_side g" using v n by simp
  have tw: "tile_width g = (mxx - mnx) / real_of_int n" "tile_height g = (mxy - mny) / real_of_int n"
           "min_x g = mnx" "min_y g = mny"
    using g by (simp_all add: tile_width_def tile_height_def)
  show ?thesis
    using clamp_index_range [OF g1 fx] clamp_index_range [OF g1 fy] n
    unfolding get_tile_index_def tw by simp
qed

lemma get_tile_index_max_corner:
  assumes s: "grid_setup mnx mny mxx mxy n = Inr g"
  shows "get_tile_index g mxx mxy = (n - 1, n - 1)"
proof -
  from grid_setup_Inr [OF s] have v: "mnx < mxx" "mny < mxy" "1 \<le> n"
    and g: "g = \<lparr>min_x = mnx, min_y = mny, max_x = mxx, max_y = mxy, n_tiles_side = n\<rparr>"
    by simp_all
  have "(mxx - mnx) / ((mxx - mnx) / real_of_int n) = real_of_int n"
       "(mxy - mny) / ((mxy - mny) / real_of_int n) = real_of_int n"
    using v by simp_all
  then show ?thesis
    using g by (simp add: get_tile_index_def tile_width_def tile_height_def clamp_index_def)
qed

lemma get_tile_index_scenario:
  "\<exists>g0. grid_setup 0 0 100 100 2 = Inr g0 \<and>
      get_tile_index g0 99 1 = (1, 0) \<and>
      get_tile_index g0 100 100 = (1, 1) \<and>
      get_tile_index g0 49 49 = (0, 0)"
  by (simp add: grid_setup_def get_tile_index_def tile_width_def tile_height_def clamp_index_def)

text \<open>
  C3: on a grid that \<open>setup\<close> accepted, every point of the closed rectangle gets indices
  in \<open>[0, n_tiles_side - 1]\<close> on both axes, the maximum corner gets the last index on both
  axes, and on \<open>Grid.setup(0,0,100,100,2)\<close> the points \<open>(99,1)\<close>, \<open>(100,100)\<close>, \<open>(49,49)\<close>
  get \<open>(1,0)\<close>, \<open>(1,1)\<close>, \<open>(0,0)\<close>.
\<close>

theorem get_tile_index_in_range:
  "(grid_setup mnx mny mxx mxy n = Inr g \<longrightarrow>
      (mnx \<le> x \<and> x \<le> mxx \<and> mny \<le> y \<and> y \<le> mxy \<longrightarrow>
         0 \<le> fst (get_tile_index g x y) \<and> fst (get_tile_index g x y) \<le> n - 1 \<and>
         0 \<le> snd (get_tile_index g x y) \<and> snd (get_tile_index g x y) \<le> n - 1) \<and>
      get_tile_index g mxx mxy = (n - 1, n - 1)) \<and>
   (\<exists>g0. grid_setup 0 0 100 100 2 = Inr g0 \<and>
      get_tile_index g0 99 1 = (1, 0) \<and>
      get_tile_index g0 100 100 = (1, 1) \<and>
      get_tile_index g0 49 49 = (0, 0))"
  using get_tile_index_bounds [of mnx mny mxx mxy n g x y]
        get_tile_index_max_corner [of mnx mny mxx mxy n g]
        get_tile_index_scenario
  by blast

theorem get_tile_index_in_range_witness:
  "grid_setup 0 0 100 100 2
     = Inr \<lparr>min_x = 0, min_y = 0, max_x = 100, max_y = 100, n_tiles_side = 2\<rparr> \<and>
   (0::real) \<le> 50 \<and> (50::real) \<le> 100 \<and> (0::real) \<le> 100 \<and>
   fst (get_tile_index
          \<lparr>min_x = 0, min_y = 0, max_x = 100, max_y = 100, n_tiles_side = 2\<rparr> 50 100) \<le> 2 - 1 \<and>
   snd (get_tile_index
          \<lparr>min_x = 0, min_y = 0, max_x = 100, max_y = 100, n_tiles_side = 2\<rparr> 50 100) \<le> 2 - 1"
  using get_tile_index_in_range
    [of 0 0 100 100 2 "\<lparr>min_x = 0, min_y = 0, max_x = 100, max_y = 100, n_tiles_side = 2\<rparr>"
        50 100]
  by (simp add: grid_setup_def)

section \<open>Results on the retiler\<close>
















lemma check_dir_exists_keeps:
  "check_dir_exists d out = Inr out' \<Longrightarrow> e \<in> set out \<Longrightarrow> e \<in> set out'"
  by (auto simp add: check_dir_exists_def split: option.splits node.splits)

lemma rename_into_keeps_file:
  "(m, File hh) \<in> set out \<Longrightarrow> m \<noteq> n \<Longrightarrow> (m, File hh) \<in> set (rename_into n d out)"
proof (cases "map_of out n")
  case None
  assume "(m, File hh) \<in> set out"
  with None show ?thesis by (simp add: rename_into_def)
next
  case (Some nd)
  assume a: "(m, File hh) \<in> set out" and b: "m \<noteq> n"
  let ?f = "\<lambda>(m, x). if m = d then (m, put_child n nd x) else (m, x)"
  have "(m, File hh) \<in> set (filter (\<lambda>(m, _). m \<noteq> n) out)" using a b by simp
  then have "?f (m, File hh) \<in> set (map ?f (filter (\<lambda>(m, _). m \<noteq> n) out))"
    unfolding set_map by (rule imageI)
  moreover have "?f (m, File hh) = (m, File hh)" by simp
  ultimately show ?thesis using Some by (simp add: rename_into_def)
qed

lemma redistribute_renames:
  "\<exists>new. renames (snd (redistribute ts w)) = renames w @ new
     \<and> fst ` set new \<subseteq> fst ` set ts
     \<and> (\<forall>p \<in> set new. \<exists>i j. snd p = get_tile_name i j)"
proof (induction ts arbitrary: w)
  case Nil
  then show ?case by simp
next
  case (Cons tile ts)
  show ?case
  proof (cases "get_details_pc_file (snd tile)")
    case None
    then show ?thesis by simp
  next
    case (Some h)
    define cpX where "cpX = fst (mins h) + ((fst (maxs h) - fst (mins h)) / 2)"
    define cpY where "cpY = snd (mins h) + ((snd (maxs h) - snd (mins h)) / 2)"
    define ij where "ij = get_tile_index (grid w) cpX cpY"
    define tile_id where "tile_id = get_tile_name (fst ij) (snd ij)"
    show ?thesis
    proof (cases "check_dir_exists tile_id (output_folder w)")
      case (Inl e)
      then show ?thesis using Some
        by (simp add: Let_def cpX_def cpY_def ij_def tile_id_def)
    next
      case (Inr out)
      define w1 where "w1 = w\<lparr>output_folder := rename_into (fst tile) tile_id out,
                              renames := renames w @ [(fst tile, tile_id)]\<rparr>"
      have step: "redistribute (tile # ts) w = redistribute ts w1"
        using Some Inr by (simp add: Let_def cpX_def cpY_def ij_def tile_id_def w1_def)
      from Cons.IH [of w1] obtain new where
        n: "renames (snd (redistribute ts w1)) = renames w1 @ new"
           "fst ` set new \<subseteq> fst ` set ts"
           "\<forall>p \<in> set new. \<exists>i j. snd p = get_tile_name i j"
        by blast
      have "renames (snd (redistribute (tile # ts) w)) = renames w @ ((fst tile, tile_id) # new)"
        using n(1) step by (simp add: w1_def)
      moreover have "fst ` set ((fst tile, tile_id) # new) \<subseteq> fst ` set (tile # ts)"
        using n(2) by auto
      moreover have "\<forall>p \<in> set ((fst tile, tile_id) # new). \<exists>i j. snd p = get_tile_name i j"
        using n(3) by (auto simp add: tile_id_def)
      ultimately show ?thesis by blast
    qed
  qed
qed

lemma redistribute_keeps_file:
  "(m, File hh) \<in> set (output_folder w) \<Longrightarrow> m \<notin> fst ` set ts \<Longrightarrow>
   (m, File hh) \<in> set (output_folder (snd (redistribute ts w)))"
proof (induction ts arbitrary: w)
  case Nil
  then show ?case by simp
next
  case (Cons tile ts)
  from Cons.prems have ne: "m \<noteq> fst tile" and rest: "m \<notin> fst ` set ts" by auto
  show ?case
  proof (cases "get_details_pc_file (snd tile)")
    case None
    then show ?thesis using Cons.prems by simp
  next
    case (Some h)
    define cpX where "cpX = fst (mins h) + ((fst (maxs h) - fst (mins h)) / 2)"
    define cpY where "cpY = snd (mins h) + ((snd (maxs h) - snd (mins h)) / 2)"
    define ij where "ij = get_tile_index (grid w) cpX cpY"
    define tile_id where "tile_id = get_tile_name (fst ij) (snd ij)"
    show ?thesis
    proof (cases "check_dir_exists tile_id (output_folder w)")
      case (Inl e)
      then show ?thesis using Some Cons.prems
        by (simp add: Let_def cpX_def cpY_def ij_def tile_id_def)
    next
      case (Inr out)
      define w1 where "w1 = w\<lparr>output_folder := rename_into (fst tile) tile_id out,
                              renames := renames w @ [(fst tile, tile_id)]\<rparr>"
      have step: "redistribute (tile # ts) w = redistribute ts w1"
        using Some Inr by (simp add: Let_def cpX_def cpY_def ij_def tile_id_def w1_def)
      have "(m, File hh) \<in> set out"
        using check_dir_exists_keeps [OF Inr] Cons.prems(1) by blast
      then have "(m, File hh) \<in> set (output_folder w1)"
        using rename_into_keeps_file [of m hh out "fst tile" tile_id] ne by (simp add: w1_def)
      from Cons.IH [OF this rest] show ?thesis using step by simp
    qed
  qed
qed

text \<open>
  C9: every file that \<open>split_and_redistribute\<close> moves has the suffix of the input file
  up to case, a stem that starts with the stem of the input file, and a name other than
  the name of the input file, and it is moved into a folder \<open>tile_{i}_{j}\<close>; the input
  file is never moved, and when it lies in the output folder it is still there
  afterwards.
\<close>

theorem split_moves_only_tiles:
  "\<exists>new. renames (snd (split_and_redistribute pdal w)) = renames w @ new
     \<and> (\<forall>p \<in> set new.
           lower (path_suffix (fst p)) = lower (path_suffix (input_name w))
           \<and> startswith (path_stem (fst p)) (path_stem (input_name w))
           \<and> fst p \<noteq> input_name w
           \<and> (\<exists>i j. snd p = get_tile_name i j))
     \<and> input_name w \<notin> fst ` set new
     \<and> (\<forall>out hh. check_file_exists (input_name w) (input_node w) = Inr ()
                  \<and> pdal w = Inr out \<and> (input_name w, File hh) \<in> set out \<longrightarrow>
           (input_name w, File hh) \<in> set (output_folder (snd (split_and_redistribute pdal w))))"
proof (cases "check_file_exists (input_name w) (input_node w)")
  case (Inl e)
  then show ?thesis by (simp add: split_and_redistribute_def)
next
  case chk: (Inr u)
  show ?thesis
  proof (cases "pdal w")
    case (Inl e)
    then show ?thesis using chk by (simp add: split_and_redistribute_def)
  next
    case (Inr out)
    let ?tiles = "filter (is_tile_of (input_name w)) out"
    let ?w1 = "w\<lparr>output_folder := out\<rparr>"
    have run: "split_and_redistribute pdal w = redistribute ?tiles ?w1"
      using chk Inr by (simp add: split_and_redistribute_def)
    from redistribute_renames [of ?tiles ?w1] obtain new where
      n: "renames (snd (redistribute ?tiles ?w1)) = renames ?w1 @ new"
         "fst ` set new \<subseteq> fst ` set ?tiles"
         "\<forall>p \<in> set new. \<exists>i j. snd p = get_tile_name i j"
      by blast
    have tl: "\<And>n. n \<in> fst ` set ?tiles \<Longrightarrow>
        lower (path_suffix n) = lower (path_suffix (input_name w))
        \<and> startswith (path_stem n) (path_stem (input_name w)) \<and> n \<noteq> input_name w"
      by (auto simp add: is_tile_of_def)
    have a: "renames (snd (split_and_redistribute pdal w)) = renames w @ new"
      using n(1) run by simp
    have b: "\<forall>p \<in> set new.
           lower (path_suffix (fst p)) = lower (path_suffix (input_name w))
           \<and> startswith (path_stem (fst p)) (path_stem (input_name w))
           \<and> fst p \<noteq> input_name w
           \<and> (\<exists>i j. snd p = get_tile_name i j)"
      using n(2) n(3) tl by blast
    have c: "input_name w \<notin> fst ` set new" using n(2) tl by blast
    have notin: "input_name w \<notin> fst ` set ?tiles" using tl by blast
    have d: "\<forall>out' hh. check_file_exists (input_name w) (input_node w) = Inr ()
                  \<and> pdal w = Inr out' \<and> (input_name w, File hh) \<in> set out' \<longrightarrow>
           (input_name w, File hh) \<in> set (output_folder (snd (split_and_redistribute pdal w)))"
    proof (intro allI impI)
      fix out' hh
      assume h: "check_file_exists (input_name w) (input_node w) = Inr ()
                  \<and> pdal w = Inr out' \<and> (input_name w, File hh) \<in> set out'"
      with Inr have "(input_name w, File hh) \<in> set (output_folder ?w1)" by simp
      from redistribute_keeps_file [OF this notin] show
        "(input_name w, File hh) \<in> set (output_folder (snd (split_and_redistribute pdal w)))"
        using run by simp
    qed
    from a b c d show ?thesis by blast
  qed
qed

theorem split_moves_only_tiles_witness:
  "renames (snd (split_and_redistribute demo_pdal demo_retiler))
     = renames demo_retiler @ [(''a_1.las'', ''tile_0_0''), (''a_2.LAS'', ''tile_1_1'')] \<and>
   input_name demo_retiler = ''a.las'' \<and>
   check_file_exists (input_name demo_retiler) (input_node demo_retiler) = Inr () \<and>
   demo_pdal demo_retiler = Inr demo_split \<and>
   (input_name demo_retiler, File (Some demo_header)) \<in> set demo_split \<and>
   (input_name demo_retiler, File (Some demo_header))
     \<in> set (output_folder (snd (split_and_redistribute demo_pdal demo_retiler)))"
proof -
  have e: "renames (snd (split_and_redistribute demo_pdal demo_retiler))
     = renames demo_retiler @ [(''a_1.las'', ''tile_0_0''), (''a_2.LAS'', ''tile_1_1'')]"
    by code_simp
  have n: "input_name demo_retiler = ''a.las''" by code_simp
  have c: "check_file_exists (input_name demo_retiler) (input_node demo_retiler) = Inr ()"
    by code_simp
  have p: "demo_pdal demo_retiler = Inr demo_split" by (simp add: demo_pdal_def)
  have m: "(input_name demo_retiler, File (Some demo_header)) \<in> set demo_split"
    by code_simp
  from split_moves_only_tiles [of demo_pdal demo_retiler] c p m
  have "(input_name demo_retiler, File (Some demo_header))
     \<in> set (output_folder (snd (split_and_redistribute demo_pdal demo_retiler)))"
    by blast
  with e n c p m show ?thesis by simp
qed

section \<open>Results on the remote functions\<close>

lemma calls_logged: "calls (logged c out st) = calls st @ [(c, out)]"
  by (simp add: logged_def)

lemma remote_logged: "remote (logged c out st) = remote st"
  by (simp add: logged_def)

lemma calls_changed:
  "changed c r st = (x, st1) \<Longrightarrow>
   calls st1 = calls st @ [(c, case fst r of Inl e \<Rightarrow> Raised e | Inr _ \<Rightarrow> RetNone)]
   \<and> (case fst r of Inl e \<Rightarrow> x = Inl e | Inr _ \<Rightarrow> x = Inr ())"
  by (auto simp add: changed_def calls_logged split: sum.splits)

lemma do_check_calls:
  "do_check cl st p = (x, st1) \<Longrightarrow>
   remote st1 = remote st \<and> local_paths st1 = local_paths st \<and>
   x = wd_check cl (remote st) p \<and>
   calls st1 = calls st @ [(Check p, case x of Inl e \<Rightarrow> Raised e | Inr b \<Rightarrow> RetBool b)]"
  by (auto simp add: do_check_def logged_def split: sum.splits)

lemma do_is_dir_calls:
  "do_is_dir cl st p = (x, st1) \<Longrightarrow>
   remote st1 = remote st \<and> local_paths st1 = local_paths st \<and>
   x = wd_is_dir cl (remote st) p \<and>
   calls st1 = calls st @ [(IsDir p, case x of Inl e \<Rightarrow> Raised e | Inr b \<Rightarrow> RetBool b)]"
  by (auto simp add: do_is_dir_def logged_def split: sum.splits)

lemma do_list_calls:
  "do_list cl st p = (x, st1) \<Longrightarrow>
   remote st1 = remote st \<and> local_paths st1 = local_paths st \<and>
   x = wd_list cl (remote st) p \<and>
   calls st1 = calls st @ [(ListDir p, case x of Inl e \<Rightarrow> Raised e | Inr rs \<Rightarrow> RetList rs)]"
  by (auto simp add: do_list_def logged_def split: sum.splits)

lemma remote_target_extends:
  "remote_target cl st rd = (x, st1) \<Longrightarrow> \<exists>rest. calls st1 = calls st @ rest"
  unfolding remote_target_def do_mkdir_def
  by (auto split: prod.splits sum.splits if_splits
      dest!: do_check_calls do_is_dir_calls calls_changed)

lemma push_file_extends:
  "push_file_to_remote cl st lo rd f = (x, st1) \<Longrightarrow> \<exists>rest. calls st1 = calls st @ rest"
  unfolding push_file_to_remote_def do_upload_sync_def Let_def
  by (auto split: prod.splits sum.splits if_splits
      dest!: do_check_calls calls_changed)

lemma push_record_file_extends:
  "push_record_file cl st ld rd f = (x, st1) \<Longrightarrow> \<exists>rest. calls st1 = calls st @ rest"
  unfolding push_record_file_def do_clean_def Let_def
  by (auto split: prod.splits sum.splits if_splits
      dest!: do_check_calls calls_changed push_file_extends)

lemma push_extends:
  "\<exists>rest. calls (snd (push_directory_to_remote cl st ld t rd)) = calls st @ rest"
  "\<exists>rest. calls (snd (push_records cl st ld rd recs)) = calls st @ rest"
proof (induction cl st ld t rd and cl st ld rd recs
       rule: push_directory_to_remote_push_records.induct)
  case (1 cl st local_dir remote_dir)
  then show ?case
    by (auto split: prod.splits sum.splits dest!: remote_target_extends)
next
  case (2 cl st local_dir lrecords remote_dir)
  show ?case
  proof (cases "remote_target cl st remote_dir")
    case (Pair x st1)
    from remote_target_extends [OF Pair] obtain r1 where r1: "calls st1 = calls st @ r1" by blast
    show ?thesis
    proof (cases x)
      case (Inl e)
      then show ?thesis using Pair r1 by simp
    next
      case (Inr u)
      from 2 [OF Pair [symmetric] Inr] obtain r2 where
        "calls (snd (push_records cl st1 local_dir remote_dir lrecords)) = calls st1 @ r2" by blast
      then show ?thesis using Pair Inr r1 by simp
    qed
  qed
next
  case (3 cl st local_dir remote_dir)
  then show ?case by simp
next
  case (4 cl st local_dir remote_dir lrecord sub rest)
  let ?p = "push_directory_to_remote cl st (os_path_join local_dir lrecord) (LDir sub)
             (os_path_join remote_dir lrecord)"
  obtain x st1 where p: "?p = (x, st1)" by (cases ?p) auto
  from 4(1) p obtain r1 where r1: "calls st1 = calls st @ r1" by auto
  show ?case
  proof (cases x)
    case (Inl e)
    then show ?thesis using p r1 by simp
  next
    case (Inr u)
    from 4(2) [OF p [symmetric] Inr] obtain r2 where
      "calls (snd (push_records cl st1 local_dir remote_dir rest)) = calls st1 @ r2" by blast
    then show ?thesis using p Inr r1 by simp
  qed
next
  case (5 cl st local_dir remote_dir lrecord rest)
  let ?p = "push_record_file cl st local_dir remote_dir lrecord"
  obtain x st1 where p: "?p = (x, st1)" by (cases ?p) auto
  from push_record_file_extends [OF p] obtain r1 where r1: "calls st1 = calls st @ r1" by blast
  show ?case
  proof (cases x)
    case (Inl e)
    then show ?thesis using p r1 by simp
  next
    case (Inr u)
    from 5 [OF p [symmetric] Inr] obtain r2 where
      "calls (snd (push_records cl st1 local_dir remote_dir rest)) = calls st1 @ r2" by blast
    then show ?thesis using p Inr r1 by simp
  qed
qed

text \<open>
  C4: when the local target path exists, \<open>pull_directory_from_remote\<close> fails at once
  with \<open>FileExistsError\<close>, whatever the bound on the depth, and leaves the state as it
  was: no call on the client (no listing, no download), no change of the local file
  system.
\<close>

theorem pull_into_existing_fails:
  "local_dir \<in> set (local_paths st) \<Longrightarrow>
   pull_directory_from_remote (Suc n) cl st local_dir remote_dir
     = Some (Inl (FileExistsError local_dir), st)"
  by simp

theorem pull_into_existing_fails_witness:
  "''/old'' \<in> set (local_paths demo_rstate) \<and>
   pull_directory_from_remote (Suc 2) demo_wdclient demo_rstate ''/old'' ''/r''
     = Some (Inl (FileExistsError ''/old''), demo_rstate) \<and>
   calls demo_rstate = []"
proof -
  have a: "''/old'' \<in> set (local_paths demo_rstate)" by (simp add: demo_rstate_def)
  from pull_into_existing_fails [OF a, of 2 demo_wdclient "''/r''"] a
  show ?thesis by (simp add: demo_rstate_def)
qed

lemma remote_target_missing:
  assumes "wd_check cl (remote st) rd = Inr False"
  shows "\<exists>x st1. remote_target cl st rd = (x, st1) \<and>
           calls st1 = calls st @
             [(Check rd, RetBool False),
              (Mkdir rd, case fst (wd_mkdir cl (remote st) rd) of
                           Inl e \<Rightarrow> Raised e | Inr _ \<Rightarrow> RetNone)]"
  using assms
  by (auto simp add: remote_target_def do_check_def do_mkdir_def changed_def logged_def
      split: sum.splits)

lemma remote_target_conflict:
  assumes "wd_check cl (remote st) rd = Inr True" "wd_is_dir cl (remote st) rd = Inr False"
  shows "remote_target cl st rd =
           (Inl (FileExistsError []),
            st\<lparr>calls := calls st @ [(Check rd, RetBool True), (IsDir rd, RetBool False)]\<rparr>)"
  using assms
  by (simp add: remote_target_def do_check_def do_is_dir_def logged_def)

lemma push_after_target:
  "remote_target cl st rd = (x, st1) \<Longrightarrow>
   \<exists>rest. calls (snd (push_directory_to_remote cl st ld t rd)) = calls st1 @ rest"
proof (cases t)
  case LFile
  assume "remote_target cl st rd = (x, st1)"
  then show ?thesis using LFile by (cases x) simp_all
next
  case (LDir recs)
  assume "remote_target cl st rd = (x, st1)"
  then show ?thesis using LDir push_extends(2) [of cl st1 ld rd recs] by (cases x) simp_all
qed

text \<open>
  C6: when \<open>check\<close> answers that the remote target does not exist, the first call after
  the check is \<open>mkdir\<close> on the target, before anything else; when the target exists and
  is no directory, \<open>push_directory_to_remote\<close> fails with \<open>FileExistsError\<close> after the
  two queries, with no upload and no other call.
\<close>

theorem push_remote_target_rules:
  "(wd_check cl (remote st) remote_dir = Inr False \<longrightarrow>
      (\<exists>rest. calls (snd (push_directory_to_remote cl st local_dir t remote_dir))
         = calls st @
           [(Check remote_dir, RetBool False),
            (Mkdir remote_dir, case fst (wd_mkdir cl (remote st) remote_dir) of
                                 Inl e \<Rightarrow> Raised e | Inr _ \<Rightarrow> RetNone)] @ rest)) \<and>
   (wd_check cl (remote st) remote_dir = Inr True \<and>
    wd_is_dir cl (remote st) remote_dir = Inr False \<longrightarrow>
      push_directory_to_remote cl st local_dir t remote_dir
        = (Inl (FileExistsError []),
           st\<lparr>calls := calls st @
                 [(Check remote_dir, RetBool True), (IsDir remote_dir, RetBool False)]\<rparr>))"
proof (intro conjI impI)
  assume "wd_check cl (remote st) remote_dir = Inr False"
  from remote_target_missing [OF this] obtain x st1 where
    t: "remote_target cl st remote_dir = (x, st1)"
    and c: "calls st1 = calls st @
             [(Check remote_dir, RetBool False),
              (Mkdir remote_dir, case fst (wd_mkdir cl (remote st) remote_dir) of
                           Inl e \<Rightarrow> Raised e | Inr _ \<Rightarrow> RetNone)]"
    by blast
  from push_after_target [OF t, of local_dir t] c
  show "\<exists>rest. calls (snd (push_directory_to_remote cl st local_dir t remote_dir))
         = calls st @
           [(Check remote_dir, RetBool False),
            (Mkdir remote_dir, case fst (wd_mkdir cl (remote st) remote_dir) of
                                 Inl e \<Rightarrow> Raised e | Inr _ \<Rightarrow> RetNone)] @ rest"
    by auto
next
  assume "wd_check cl (remote st) remote_dir = Inr True \<and>
    wd_is_dir cl (remote st) remote_dir = Inr False"
  then have "remote_target cl st remote_dir =
           (Inl (FileExistsError []),
            st\<lparr>calls := calls st @
                 [(Check remote_dir, RetBool True), (IsDir remote_dir, RetBool False)]\<rparr>)"
    using remote_target_conflict by blast
  then show "push_directory_to_remote cl st local_dir t remote_dir
        = (Inl (FileExistsError []),
           st\<lparr>calls := calls st @
                 [(Check remote_dir, RetBool True), (IsDir remote_dir, RetBool False)]\<rparr>)"
    by (cases t) simp_all
qed

theorem push_remote_target_rules_witness:
  "wd_check demo_wdclient (remote demo_rstate) ''/new'' = Inr False \<and>
   take 2 (calls (snd (push_directory_to_remote demo_wdclient demo_rstate ''/l''
                         (LDir [(''a.las'', LFile)]) ''/new'')))
     = [(Check ''/new'', RetBool False), (Mkdir ''/new'', RetNone)] \<and>
   wd_check demo_wdclient (remote demo_rstate) ''/r/a.las'' = Inr True \<and>
   wd_is_dir demo_wdclient (remote demo_rstate) ''/r/a.las'' = Inr False \<and>
   push_directory_to_remote demo_wdclient demo_rstate ''/l'' (LDir [(''a.las'', LFile)])
       ''/r/a.las''
     = (Inl (FileExistsError []),
        demo_rstate\<lparr>calls := [(Check ''/r/a.las'', RetBool True),
                               (IsDir ''/r/a.las'', RetBool False)]\<rparr>)"
proof -
  have a: "wd_check demo_wdclient (remote demo_rstate) ''/new'' = Inr False" by code_simp
  have m: "fst (wd_mkdir demo_wdclient (remote demo_rstate) ''/new'') = Inr ()" by code_simp
  have b: "wd_check demo_wdclient (remote demo_rstate) ''/r/a.las'' = Inr True" by code_simp
  have c: "wd_is_dir demo_wdclient (remote demo_rstate) ''/r/a.las'' = Inr False" by code_simp
  have e: "calls demo_rstate = []" by (simp add: demo_rstate_def)
  from push_remote_target_rules
         [of demo_wdclient demo_rstate "''/new''" "''/l''" "LDir [(''a.las'', LFile)]"] a m e
  have p1: "take 2 (calls (snd (push_directory_to_remote demo_wdclient demo_rstate ''/l''
                         (LDir [(''a.las'', LFile)]) ''/new'')))
     = [(Check ''/new'', RetBool False), (Mkdir ''/new'', RetNone)]"
    by auto
  from push_remote_target_rules
         [of demo_wdclient demo_rstate "''/r/a.las''" "''/l''" "LDir [(''a.las'', LFile)]"] b c e
  have p2: "push_directory_to_remote demo_wdclient demo_rstate ''/l'' (LDir [(''a.las'', LFile)])
       ''/r/a.las''
     = (Inl (FileExistsError []),
        demo_rstate\<lparr>calls := [(Check ''/r/a.las'', RetBool True),
                               (IsDir ''/r/a.las'', RetBool False)]\<rparr>)"
    by simp
  from a b c p1 p2 show ?thesis by simp
qed

lemma uploads_append: "uploads (a @ b) = uploads a @ uploads b"
  by (induction a rule: uploads.induct) simp_all

lemma sends_prepend: "sends l f \<Longrightarrow> sends (a @ l) f"
proof -
  assume "sends l f"
  then obtain pre post b where "l = pre @ file_calls f b @ post" unfolding sends_def by blast
  then have "a @ l = (a @ pre) @ file_calls f b @ post" by simp
  then show ?thesis unfolding sends_def by blast
qed

lemma sends_append: "sends l f \<Longrightarrow> sends (l @ c) f"
proof -
  assume "sends l f"
  then obtain pre post b where "l = pre @ file_calls f b @ post" unfolding sends_def by blast
  then have "l @ c = pre @ file_calls f b @ (post @ c)" by simp
  then show ?thesis unfolding sends_def by blast
qed

lemma sends_file_calls: "sends (file_calls f b) f"
proof -
  have "file_calls f b = [] @ file_calls f b @ []" by simp
  then show ?thesis unfolding sends_def by blast
qed

lemma uploads_file_calls: "uploads (file_calls f b) = [upload_of f]"
  by (cases b) (simp_all add: file_calls_def)

lemma changed_ok:
  "changed c r st = (Inr u, st1) \<Longrightarrow> calls st1 = calls st @ [(c, RetNone)]"
  by (auto simp add: changed_def logged_def split: sum.splits)

lemma remote_target_ok:
  assumes "remote_target cl st rd = (Inr u, st1)"
  shows "\<exists>tn. calls st1 = calls st @ tn \<and> uploads tn = []"
proof -
  obtain x s1 where ck: "do_check cl st rd = (x, s1)" by (cases "do_check cl st rd") auto
  from do_check_calls [OF ck] obtain o1 where c1: "calls s1 = calls st @ [(Check rd, o1)]"
    by blast
  from assms ck obtain b where xb: "x = Inr b"
    by (cases x) (auto simp add: remote_target_def)
  show ?thesis
  proof (cases b)
    case False
    obtain y s2 where mk: "do_mkdir cl s1 rd = (y, s2)" by (cases "do_mkdir cl s1 rd") auto
    from assms ck xb False mk have "y = Inr ()" "st1 = s2"
      by (cases y; auto simp add: remote_target_def split: if_splits)+
    with mk have "calls st1 = calls s1 @ [(Mkdir rd, RetNone)]"
      using changed_ok [of "Mkdir rd" "wd_mkdir cl (remote s1) rd" s1 "()" s2]
      by (simp add: do_mkdir_def)
    with c1 have "calls st1 = calls st @ [(Check rd, o1), (Mkdir rd, RetNone)]" by simp
    moreover have "uploads [(Check rd, o1), (Mkdir rd, RetNone)] = []" by simp
    ultimately show ?thesis by blast
  next
    case True
    obtain y s2 where q: "do_is_dir cl s1 rd = (y, s2)" by (cases "do_is_dir cl s1 rd") auto
    from do_is_dir_calls [OF q] obtain o2 where c2: "calls s2 = calls s1 @ [(IsDir rd, o2)]"
      by blast
    from assms ck xb True q have "st1 = s2"
      by (cases y) (auto simp add: remote_target_def split: if_splits)
    with c1 c2 have "calls st1 = calls st @ [(Check rd, o1), (IsDir rd, o2)]" by simp
    moreover have "uploads [(Check rd, o1), (IsDir rd, o2)] = []" by simp
    ultimately show ?thesis by blast
  qed
qed

lemma push_file_ok:
  assumes "push_file_to_remote cl st lo rd f = (Inr u, st1)"
  shows "calls st1 = calls st @
           [(Check rd, RetBool True),
            (UploadSync (os_path_join rd f) (os_path_join lo f), RetNone)]"
proof -
  obtain x s1 where ck: "do_check cl st rd = (x, s1)" by (cases "do_check cl st rd") auto
  from assms ck have xb: "x = Inr True"
    by (cases x) (auto simp add: push_file_to_remote_def Let_def split: if_splits)
  from do_check_calls [OF ck] xb have c1: "calls s1 = calls st @ [(Check rd, RetBool True)]"
    by simp
  from assms ck xb have
    "do_upload_sync cl s1 (os_path_join rd f) (os_path_join lo f) = (Inr u, st1)"
    by (simp add: push_file_to_remote_def Let_def)
  then have "calls st1 = calls s1 @ [(UploadSync (os_path_join rd f) (os_path_join lo f), RetNone)]"
    unfolding do_upload_sync_def by (rule changed_ok)
  with c1 show ?thesis by simp
qed

lemma push_record_file_ok:
  assumes "push_record_file cl st ld rd f = (Inr u, st1)"
  shows "\<exists>b. calls st1 = calls st @ file_calls (ld, rd, f) b"
proof -
  let ?rp = "os_path_join rd f"
  obtain x s1 where ck: "do_check cl st ?rp = (x, s1)" by (cases "do_check cl st ?rp") auto
  from assms ck obtain b where xb: "x = Inr b"
    by (cases x) (auto simp add: push_record_file_def Let_def)
  from do_check_calls [OF ck] xb have c1: "calls s1 = calls st @ [(Check ?rp, RetBool b)]"
    by simp
  show ?thesis
  proof (cases b)
    case True
    obtain y s2 where cn: "do_clean cl s1 ?rp = (y, s2)" by (cases "do_clean cl s1 ?rp") auto
    from assms ck xb True cn obtain v where yv: "y = Inr v"
      by (cases y) (auto simp add: push_record_file_def Let_def)
    from cn yv have c2: "calls s2 = calls s1 @ [(Clean ?rp, RetNone)]"
      unfolding do_clean_def by (auto dest: changed_ok)
    from assms ck xb True cn yv have "push_file_to_remote cl s2 ld rd f = (Inr u, st1)"
      by (simp add: push_record_file_def Let_def)
    from push_file_ok [OF this] c1 c2 True
    have "calls st1 = calls st @ file_calls (ld, rd, f) True"
      by (simp add: file_calls_def upload_of_def)
    then show ?thesis by blast
  next
    case False
    from assms ck xb False have "push_file_to_remote cl s1 ld rd f = (Inr u, st1)"
      by (simp add: push_record_file_def Let_def)
    from push_file_ok [OF this] c1 False
    have "calls st1 = calls st @ file_calls (ld, rd, f) False"
      by (simp add: file_calls_def upload_of_def)
    then show ?thesis by blast
  qed
qed

lemma push_okI:
  "(\<And>st'. r = (Inr (), st') \<Longrightarrow>
      \<exists>new. calls st' = calls st @ new \<and> uploads new = map upload_of fs
            \<and> (\<forall>f \<in> set fs. sends new f)) \<Longrightarrow> push_ok fs st r"
  unfolding push_ok_def by blast

lemma push_okD:
  "push_ok fs st r \<Longrightarrow> r = (Inr (), st') \<Longrightarrow>
   \<exists>new. calls st' = calls st @ new \<and> uploads new = map upload_of fs
         \<and> (\<forall>f \<in> set fs. sends new f)"
  unfolding push_ok_def by blast

lemma push_ok_seq:
  assumes a: "calls s1 = calls st @ n1" "uploads n1 = map upload_of fs1"
             "\<forall>f \<in> set fs1. sends n1 f"
    and b: "push_ok fs2 s1 r"
  shows "push_ok (fs1 @ fs2) st r"
proof (rule push_okI)
  fix st'
  assume "r = (Inr (), st')"
  from push_okD [OF b this] obtain n2 where
    n2: "calls st' = calls s1 @ n2" "uploads n2 = map upload_of fs2" "\<forall>f \<in> set fs2. sends n2 f"
    by blast
  have 1: "calls st' = calls st @ (n1 @ n2)" using a(1) n2(1) by simp
  have 2: "uploads (n1 @ n2) = map upload_of (fs1 @ fs2)"
    using a(2) n2(2) by (simp add: uploads_append)
  have 3: "\<forall>f \<in> set (fs1 @ fs2). sends (n1 @ n2) f"
    using a(3) n2(3) sends_prepend sends_append by auto
  from 1 2 3 show "\<exists>new. calls st' = calls st @ new \<and> uploads new = map upload_of (fs1 @ fs2)
            \<and> (\<forall>f \<in> set (fs1 @ fs2). sends new f)"
    by blast
qed

lemma push_sends_all:
  "push_ok (local_files ld rd t) st (push_directory_to_remote cl st ld t rd)"
  "push_ok (records_files ld rd recs) st (push_records cl st ld rd recs)"
proof (induction cl st ld t rd and cl st ld rd recs
       rule: push_directory_to_remote_push_records.induct)
  case (1 cl st local_dir remote_dir)
  show ?case
    by (rule push_okI) (auto split: prod.splits sum.splits)
next
  case (2 cl st local_dir lrecords remote_dir)
  obtain x s1 where t: "remote_target cl st remote_dir = (x, s1)"
    by (cases "remote_target cl st remote_dir") auto
  show ?case
  proof (cases x)
    case (Inl e)
    then show ?thesis using t by (simp add: push_ok_def)
  next
    case (Inr u)
    from remote_target_ok [of cl st remote_dir u s1] t Inr obtain tn where
      tn: "calls s1 = calls st @ tn" "uploads tn = []" by auto
    have ih: "push_ok (records_files local_dir remote_dir lrecords) s1
                (push_records cl s1 local_dir remote_dir lrecords)"
      using 2 [OF t [symmetric] Inr] .
    have "push_ok ([] @ records_files local_dir remote_dir lrecords) st
            (push_records cl s1 local_dir remote_dir lrecords)"
      using tn ih by (intro push_ok_seq [of s1 st tn]) simp_all
    then show ?thesis using t Inr by simp
  qed
next
  case (3 cl st local_dir remote_dir)
  show ?case by (simp add: push_ok_def)
next
  case (4 cl st local_dir remote_dir lrecord sub rest)
  let ?ld = "os_path_join local_dir lrecord" and ?rd = "os_path_join remote_dir lrecord"
  obtain x s1 where p: "push_directory_to_remote cl st ?ld (LDir sub) ?rd = (x, s1)"
    by (cases "push_directory_to_remote cl st ?ld (LDir sub) ?rd") auto
  show ?case
  proof (cases x)
    case (Inl e)
    then show ?thesis using p by (simp add: push_ok_def)
  next
    case (Inr u)
    from 4(1) p Inr have "push_ok (local_files ?ld ?rd (LDir sub)) st (Inr (), s1)" by simp
    from push_okD [OF this refl] obtain n1 where
      n1: "calls s1 = calls st @ n1" "uploads n1 = map upload_of (local_files ?ld ?rd (LDir sub))"
          "\<forall>f \<in> set (local_files ?ld ?rd (LDir sub)). sends n1 f"
      by blast
    have ih: "push_ok (records_files local_dir remote_dir rest) s1
                (push_records cl s1 local_dir remote_dir rest)"
      using 4(2) [OF p [symmetric] Inr] .
    from push_ok_seq [OF n1 ih] show ?thesis using p Inr by simp
  qed
next
  case (5 cl st local_dir remote_dir lrecord rest)
  obtain x s1 where p: "push_record_file cl st local_dir remote_dir lrecord = (x, s1)"
    by (cases "push_record_file cl st local_dir remote_dir lrecord") auto
  show ?case
  proof (cases x)
    case (Inl e)
    then show ?thesis using p by (simp add: push_ok_def)
  next
    case (Inr u)
    from push_record_file_ok [of cl st local_dir remote_dir lrecord u s1] p Inr obtain b where
      b: "calls s1 = calls st @ file_calls (local_dir, remote_dir, lrecord) b" by auto
    have ih: "push_ok (records_files local_dir remote_dir rest) s1
                (push_records cl s1 local_dir remote_dir rest)"
      using 5 [OF p [symmetric] Inr] .
    have "push_ok ([(local_dir, remote_dir, lrecord)] @ records_files local_dir remote_dir rest) st
            (push_records cl s1 local_dir remote_dir rest)"
      using b ih
      by (intro push_ok_seq [of s1 st "file_calls (local_dir, remote_dir, lrecord) b"])
         (simp_all add: uploads_file_calls sends_file_calls)
    then show ?thesis using p Inr by simp
  qed
qed

text \<open>
  C7: when \<open>push_directory_to_remote\<close> succeeds, the uploads it made are exactly those
  of the files under the local tree, depth first in the order of the listings, none
  left out; and each file was sent by the calls: check of the target path, removal of
  the remote record when the check answered true, check of the remote directory,
  upload.
\<close>

theorem push_uploads_every_file:
  "push_directory_to_remote cl st local_dir t remote_dir = (Inr (), st') \<Longrightarrow>
   \<exists>new. calls st' = calls st @ new
     \<and> uploads new = map upload_of (local_files local_dir remote_dir t)
     \<and> (\<forall>f \<in> set (local_files local_dir remote_dir t). sends new f)"
  using push_sends_all(1) [of local_dir remote_dir t st cl] by (rule push_okD)

theorem push_uploads_every_file_witness:
  "fst (push_directory_to_remote demo_wdclient demo_rstate ''/l'' demo_ltree ''/r'') = Inr () \<and>
   uploads (calls (snd (push_directory_to_remote demo_wdclient demo_rstate ''/l'' demo_ltree ''/r'')))
     = [(''/r/a.las'', ''/l/a.las''), (''/r/sub/b.las'', ''/l/sub/b.las''),
        (''/r/c.las'', ''/l/c.las'')] \<and>
   sends (calls (snd (push_directory_to_remote demo_wdclient demo_rstate ''/l'' demo_ltree ''/r'')))
     (''/l/sub'', ''/r/sub'', ''b.las'')"
proof -
  let ?p = "push_directory_to_remote demo_wdclient demo_rstate ''/l'' demo_ltree ''/r''"
  have e: "fst ?p = Inr ()" by code_simp
  then have p: "?p = (Inr (), snd ?p)" by (metis prod.collapse)
  have c: "calls demo_rstate = []" by (simp add: demo_rstate_def)
  have f: "map upload_of (local_files ''/l'' ''/r'' demo_ltree)
     = [(''/r/a.las'', ''/l/a.las''), (''/r/sub/b.las'', ''/l/sub/b.las''),
        (''/r/c.las'', ''/l/c.las'')]"
    by code_simp
  have m: "(''/l/sub'', ''/r/sub'', ''b.las'') \<in> set (local_files ''/l'' ''/r'' demo_ltree)"
    by code_simp
  from push_uploads_every_file [OF p] c f m e show ?thesis by auto
qed


lemma entries_handled_append:
  "entries_handled (a @ b) = entries_handled a + entries_handled b"
  by (induction a rule: entries_handled.induct) simp_all

lemma listing_budget_append:
  "listing_budget (a @ b) = listing_budget a + listing_budget b"
  by (induction a rule: listing_budget.induct) simp_all

lemma pull_file_calls:
  assumes "pull_file_from_remote cl st ld rd f = (x, st1)"
  shows "\<exists>out. calls st1 = calls st @ [(DownloadFile (os_path_join rd f) (os_path_join ld f), out)]"
proof -
  let ?rp = "os_path_join rd f" and ?lp = "os_path_join ld f"
  obtain y s1 where
    ch: "changed (DownloadFile ?rp ?lp) (wd_download_file cl (remote st) ?rp ?lp) st = (y, s1)"
    by (cases "changed (DownloadFile ?rp ?lp) (wd_download_file cl (remote st) ?rp ?lp) st") auto
  from calls_changed [OF ch] obtain out where c: "calls s1 = calls st @ [(DownloadFile ?rp ?lp, out)]"
    by blast
  have "calls st1 = calls s1"
    using assms ch
    by (cases y) (auto simp add: pull_file_from_remote_def do_download_file_def Let_def)
  with c show ?thesis by simp
qed

lemma calls_makedirs: "calls (makedirs st p) = calls st @ [(Makedirs p, RetNone)]"
  by (simp add: makedirs_def logged_def)

lemma within_budgetI:
  "calls st' = calls st @ new \<Longrightarrow> entries_handled new \<le> listing_budget new + k \<Longrightarrow>
   (res = Inr () \<Longrightarrow> entries_handled new = listing_budget new + k) \<Longrightarrow>
   within_budget k st (Some (res, st'))"
  by (auto simp add: within_budget_def)

lemma within_budget_None: "within_budget k st None"
  by (simp add: within_budget_def)

lemma pull_within_budget:
  "within_budget 0 st (pull_directory_from_remote n cl st ld rd)"
  "within_budget (length recs) st (pull_records n cl st ld rd recs)"
proof (induction n cl st ld rd and n cl st ld rd recs
       rule: pull_directory_from_remote_pull_records.induct)
  case (1 cl st local_dir remote_dir)
  show ?case by (simp add: within_budget_None)
next
  case (2 n cl st local_dir remote_dir)
  show ?case
  proof (cases "local_dir \<in> set (local_paths st)")
    case True
    then show ?thesis by (simp add: within_budget_def)
  next
    case False
    obtain x st1 where ck: "do_check cl st remote_dir = (x, st1)"
      by (cases "do_check cl st remote_dir") auto
    from do_check_calls [OF ck] obtain o1 where
      c1: "calls st1 = calls st @ [(Check remote_dir, o1)]" by blast
    show ?thesis
    proof (cases x)
      case (Inl e)
      then show ?thesis using False ck c1 by (simp add: within_budget_def)
    next
      case (Inr b)
      obtain y st2 where ls: "do_list cl st1 remote_dir = (y, st2)"
        by (cases "do_list cl st1 remote_dir") auto
      from do_list_calls [OF ls] have
        c2: "calls st2 = calls st1 @
               [(ListDir remote_dir, case y of Inl e \<Rightarrow> Raised e | Inr rs \<Rightarrow> RetList rs)]"
        by blast
      show ?thesis
      proof (cases y)
        case (Inl e)
        then show ?thesis using False ck Inr ls c1 c2 by (simp add: within_budget_def)
      next
        case yr: (Inr records)
        let ?st3 = "makedirs st2 local_dir"
        let ?r = "pull_records n cl ?st3 local_dir remote_dir (drop 1 records)"
        have run: "pull_directory_from_remote (Suc n) cl st local_dir remote_dir = ?r"
          using False ck Inr ls yr by simp
        have ih: "within_budget (length (drop 1 records)) ?st3 ?r"
          using 2 [OF False ck [symmetric] Inr ls [symmetric] yr] .
        have c3: "calls ?st3 = calls st @
            [(Check remote_dir, o1), (ListDir remote_dir, RetList records),
             (Makedirs local_dir, RetNone)]"
          using c1 c2 yr by (simp add: calls_makedirs)
        show ?thesis
          unfolding within_budget_def run
        proof (intro allI impI)
          fix res st'
          assume r: "?r = Some (res, st')"
          with ih obtain new where
            n: "calls st' = calls ?st3 @ new"
               "entries_handled new \<le> listing_budget new + length (drop 1 records)"
               "res = Inr () \<longrightarrow> entries_handled new = listing_budget new + length (drop 1 records)"
            unfolding within_budget_def by blast
          let ?new = "[(Check remote_dir, o1), (ListDir remote_dir, RetList records),
             (Makedirs local_dir, RetNone)] @ new"
          have a: "calls st' = calls st @ ?new" using n(1) c3 by simp
          have e: "entries_handled ?new = entries_handled new" by simp
          have l: "listing_budget ?new = (length records - 1) + listing_budget new"
            by (cases o1) simp_all
          have b: "entries_handled ?new \<le> listing_budget ?new + 0"
            using n(2) e l by simp
          have c: "res = Inr () \<longrightarrow> entries_handled ?new = listing_budget ?new + 0"
            using n(3) e l by simp
          from a b c show "\<exists>new. calls st' = calls st @ new
             \<and> entries_handled new \<le> listing_budget new + 0
             \<and> (res = Inr () \<longrightarrow> entries_handled new = listing_budget new + 0)"
            by blast
        qed
      qed
    qed
  qed
next
  case (3 n cl st local_dir remote_dir)
  show ?case by (simp add: within_budget_def)
next
  case (4 n cl st local_dir remote_dir rcd rest)
  let ?rpath = "os_path_join remote_dir rcd"
  let ?lpath = "os_path_join local_dir rcd"
  obtain x st1 where q: "do_is_dir cl st ?rpath = (x, st1)"
    by (cases "do_is_dir cl st ?rpath") auto
  from do_is_dir_calls [OF q] obtain o1 where
    c1: "calls st1 = calls st @ [(IsDir ?rpath, o1)]" by blast
  show ?case
  proof (cases x)
    case (Inl e)
    then show ?thesis using q c1 by (simp add: within_budget_def)
  next
    case (Inr b)
    show ?thesis
    proof (cases b)
      case True
      let ?d = "pull_directory_from_remote n cl st1 ?lpath ?rpath"
      have ihd: "within_budget 0 st1 ?d"
        using 4(1) [OF refl refl q [symmetric] Inr True] .
      show ?thesis
      proof (cases ?d)
        case None
        then show ?thesis using q Inr True by (simp add: within_budget_None)
      next
        case (Some p)
        obtain z st2 where p: "p = (z, st2)" by (cases p) auto
        from ihd Some p obtain n1 where
          n1: "calls st2 = calls st1 @ n1" "entries_handled n1 \<le> listing_budget n1"
              "z = Inr () \<longrightarrow> entries_handled n1 = listing_budget n1"
          unfolding within_budget_def by auto
        show ?thesis
        proof (cases z)
          case (Inl e)
          have run: "pull_records n cl st local_dir remote_dir (rcd # rest) = Some (Inl e, st2)"
            using q Inr True Some p Inl by simp
          show ?thesis unfolding run
          proof (rule within_budgetI)
            show "calls st2 = calls st @ ((IsDir ?rpath, o1) # n1)" using c1 n1(1) by simp
            show "entries_handled ((IsDir ?rpath, o1) # n1)
                    \<le> listing_budget ((IsDir ?rpath, o1) # n1) + length (rcd # rest)"
              using n1(2) by simp
          qed simp
        next
          case zr: (Inr u)
          let ?r = "pull_records n cl st2 local_dir remote_dir rest"
          have run: "pull_records n cl st local_dir remote_dir (rcd # rest) = ?r"
            using q Inr True Some p zr by simp
          have ih: "within_budget (length rest) st2 ?r"
            using 4(2) [OF refl refl q [symmetric] Inr True Some p [symmetric] zr] by simp
          show ?thesis unfolding run within_budget_def
          proof (intro allI impI)
            fix res st'
            assume "?r = Some (res, st')"
            with ih obtain n2 where
              n2: "calls st' = calls st2 @ n2"
                  "entries_handled n2 \<le> listing_budget n2 + length rest"
                  "res = Inr () \<longrightarrow> entries_handled n2 = listing_budget n2 + length rest"
              unfolding within_budget_def by blast
            let ?new = "(IsDir ?rpath, o1) # n1 @ n2"
            have a: "calls st' = calls st @ ?new" using c1 n1(1) n2(1) by simp
            have e: "entries_handled ?new = Suc (entries_handled n1 + entries_handled n2)"
              by (simp add: entries_handled_append)
            have l: "listing_budget ?new = listing_budget n1 + listing_budget n2"
              by (simp add: listing_budget_append)
            have z: "entries_handled n1 = listing_budget n1" using n1(3) zr by simp
            have b: "entries_handled ?new \<le> listing_budget ?new + length (rcd # rest)"
              using e l z n2(2) by simp
            have c: "res = Inr () \<longrightarrow>
                       entries_handled ?new = listing_budget ?new + length (rcd # rest)"
              using e l z n2(3) by simp
            from a b c show "\<exists>new. calls st' = calls st @ new
               \<and> entries_handled new \<le> listing_budget new + length (rcd # rest)
               \<and> (res = Inr () \<longrightarrow>
                    entries_handled new = listing_budget new + length (rcd # rest))"
              by blast
          qed
        qed
      qed
    next
      case False
      obtain z st2 where f: "pull_file_from_remote cl st1 local_dir remote_dir rcd = (z, st2)"
        by (cases "pull_file_from_remote cl st1 local_dir remote_dir rcd") auto
      from pull_file_calls [OF f] obtain o2 where
        c2: "calls st2 = calls st1 @ [(DownloadFile ?rpath ?lpath, o2)]" by blast
      show ?thesis
      proof (cases z)
        case (Inl e)
        have run: "pull_records n cl st local_dir remote_dir (rcd # rest) = Some (Inl e, st2)"
          using q Inr False f Inl by simp
        show ?thesis unfolding run
        proof (rule within_budgetI)
          show "calls st2 = calls st @ [(IsDir ?rpath, o1), (DownloadFile ?rpath ?lpath, o2)]"
            using c1 c2 by simp
          show "entries_handled [(IsDir ?rpath, o1), (DownloadFile ?rpath ?lpath, o2)]
                  \<le> listing_budget [(IsDir ?rpath, o1), (DownloadFile ?rpath ?lpath, o2)]
                     + length (rcd # rest)"
            by simp
        qed simp
      next
        case zr: (Inr u)
        let ?r = "pull_records n cl st2 local_dir remote_dir rest"
        have run: "pull_records n cl st local_dir remote_dir (rcd # rest) = ?r"
          using q Inr False f zr by simp
        have ih: "within_budget (length rest) st2 ?r"
          using 4(3) [OF refl refl q [symmetric] Inr False f [symmetric] zr] by simp
        show ?thesis unfolding run within_budget_def
        proof (intro allI impI)
          fix res st'
          assume "?r = Some (res, st')"
          with ih obtain n2 where
            n2: "calls st' = calls st2 @ n2"
                "entries_handled n2 \<le> listing_budget n2 + length rest"
                "res = Inr () \<longrightarrow> entries_handled n2 = listing_budget n2 + length rest"
            unfolding within_budget_def by blast
          let ?new = "[(IsDir ?rpath, o1), (DownloadFile ?rpath ?lpath, o2)] @ n2"
          have a: "calls st' = calls st @ ?new" using c1 c2 n2(1) by simp
          have e: "entries_handled ?new = Suc (entries_handled n2)" by simp
          have l: "listing_budget ?new = listing_budget n2" by simp
          have b: "entries_handled ?new \<le> listing_budget ?new + length (rcd # rest)"
            using e l n2(2) by simp
          have c: "res = Inr () \<longrightarrow>
                     entries_handled ?new = listing_budget ?new + length (rcd # rest)"
            using e l n2(3) by simp
          from a b c show "\<exists>new. calls st' = calls st @ new
             \<and> entries_handled new \<le> listing_budget new + length (rcd # rest)
             \<and> (res = Inr () \<longrightarrow>
                  entries_handled new = listing_budget new + length (rcd # rest))"
            by blast
        qed
      qed
    qed
  qed
qed

text \<open>
  C10: in the calls of a pull, the records handled are at most the records that the
  listings leave once the first record of each is taken away (exactly those when the
  pull succeeds); and the loop of a pull runs on the listing without its first record.
\<close>

theorem pull_skips_first_record:
  "(pull_directory_from_remote n cl st local_dir remote_dir = Some (res, st') \<longrightarrow>
      (\<exists>new. calls st' = calls st @ new
         \<and> entries_handled new \<le> listing_budget new
         \<and> (res = Inr () \<longrightarrow> entries_handled new = listing_budget new))) \<and>
   (local_dir \<notin> set (local_paths st) \<and>
    wd_check cl (remote st) remote_dir = Inr b \<and>
    wd_list cl (remote st) remote_dir = Inr (r0 # rs) \<longrightarrow>
      pull_directory_from_remote (Suc n) cl st local_dir remote_dir
        = pull_records n cl
            (makedirs (logged (ListDir remote_dir) (RetList (r0 # rs))
                         (logged (Check remote_dir) (RetBool b) st)) local_dir)
            local_dir remote_dir rs)"
proof (intro conjI impI)
  assume "pull_directory_from_remote n cl st local_dir remote_dir = Some (res, st')"
  with pull_within_budget(1) [of st n cl local_dir remote_dir]
  show "\<exists>new. calls st' = calls st @ new
         \<and> entries_handled new \<le> listing_budget new
         \<and> (res = Inr () \<longrightarrow> entries_handled new = listing_budget new)"
    unfolding within_budget_def by auto
next
  assume "local_dir \<notin> set (local_paths st) \<and>
    wd_check cl (remote st) remote_dir = Inr b \<and>
    wd_list cl (remote st) remote_dir = Inr (r0 # rs)"
  then show "pull_directory_from_remote (Suc n) cl st local_dir remote_dir
        = pull_records n cl
            (makedirs (logged (ListDir remote_dir) (RetList (r0 # rs))
                         (logged (Check remote_dir) (RetBool b) st)) local_dir)
            local_dir remote_dir rs"
    by (simp add: do_check_def do_list_def remote_logged)
qed

theorem pull_skips_first_record_witness:
  "map_option fst (pull_directory_from_remote 3 demo_wdclient demo_rstate ''/l'' ''/r'')
     = Some (Inr ()) \<and>
   map_option (\<lambda>r. entries_handled (calls (snd r)))
       (pull_directory_from_remote 3 demo_wdclient demo_rstate ''/l'' ''/r'') = Some 3 \<and>
   map_option (\<lambda>r. listing_budget (calls (snd r)))
       (pull_directory_from_remote 3 demo_wdclient demo_rstate ''/l'' ''/r'') = Some 3 \<and>
   wd_list demo_wdclient (remote demo_rstate) ''/r'' = Inr [''/r'', ''a.las'', ''sub'']"
proof -
  let ?p = "pull_directory_from_remote 3 demo_wdclient demo_rstate ''/l'' ''/r''"
  have e: "map_option fst ?p = Some (Inr ())" by code_simp
  have h: "map_option (\<lambda>r. entries_handled (calls (snd r))) ?p = Some 3" by code_simp
  have l: "wd_list demo_wdclient (remote demo_rstate) ''/r'' = Inr [''/r'', ''a.las'', ''sub'']"
    by code_simp
  have c: "calls demo_rstate = []" by (simp add: demo_rstate_def)
  from e obtain st' where p: "?p = Some (Inr (), st')" by (cases ?p) auto
  from pull_skips_first_record [of 3 demo_wdclient demo_rstate "''/l''" "''/r''" "Inr ()" st'] p c
  have "entries_handled (calls st') = listing_budget (calls st')" by auto
  with p h have "map_option (\<lambda>r. listing_budget (calls (snd r))) ?p = Some 3" by simp
  with e h l show ?thesis by simp
qed

text \<open>
  C5, on a remote directory that does not exist: \<open>check\<close> answers \<open>False\<close>, and
  \<open>pull_directory_from_remote\<close> goes on to ask for the listing; the failure is the one
  that the listing raises. With a client whose \<open>check\<close> answers \<open>False\<close> and whose
  listing answers, the local directory is created and the file downloaded.
\<close>

theorem pull_ignores_check_answer:
  "wd_check demo_wdclient (remote demo_rstate) ''/nowhere'' = Inr False \<and>
   map_option (\<lambda>r. (fst r, calls (snd r)))
       (pull_directory_from_remote 1 demo_wdclient demo_rstate ''/l'' ''/nowhere'')
     = Some (Inl (RemoteResourceNotFound ''/nowhere''),
             [(Check ''/nowhere'', RetBool False),
              (ListDir ''/nowhere'', Raised (RemoteResourceNotFound ''/nowhere''))]) \<and>
   map_option (\<lambda>r. (fst r, take 3 (calls (snd r)), local_paths (snd r)))
       (pull_directory_from_remote 2
          (demo_wdclient\<lparr>wd_check := (\<lambda>s p. Inr False)\<rparr>) demo_rstate ''/l'' ''/r/sub'')
     = Some (Inr (),
             [(Check ''/r/sub'', RetBool False),
              (ListDir ''/r/sub'', RetList [''/r/sub'', ''b.las'']),
              (Makedirs ''/l'', RetNone)],
             [''/old'', ''/l'', ''/l/b.las''])"
  by code_simp

end
